theory Spec2Isabelle
  imports Main "HOL-Library.Char_ord" "HOL-Library.List_Lexorder" "HOL-Library.Multiset"
begin

section \<open>Data model\<close>

text \<open>
  A Go \<^verbatim>\<open>string\<close> is a sequence of bytes; it is modelled as a HOL \<^typ>\<open>string\<close>, whose
  characters are the 256 byte values. \<^verbatim>\<open>sort.Strings\<close> orders strings byte-wise, which is the
  lexicographic order on \<^typ>\<open>char list\<close> over the numeric order on \<^typ>\<open>char\<close>.
\<close>

subsection \<open>gRPC status codes and errors\<close>

datatype code =
    OK | Canceled | Unknown | InvalidArgument | DeadlineExceeded | NotFound
  | AlreadyExists | PermissionDenied | ResourceExhausted | FailedPrecondition
  | Aborted | OutOfRange | Unimplemented | Internal | Unavailable | DataLoss
  | Unauthenticated

datatype status = Status code string

fun Code :: "status \<Rightarrow> code" where
  "Code (Status c m) = c"

text \<open>
  Go's \<^verbatim>\<open>error\<close> is an open interface. The constructors below are the error values the
  package can see or build: \<^verbatim>\<open>io.EOF\<close>; an error that carries a gRPC status
  (\<^verbatim>\<open>GRPCStatus()\<close>); any other foreign error, kept by its message; the sentinel
  \<^verbatim>\<open>ErrReflectionNotSupported\<close>; the package's \<^verbatim>\<open>notFoundError\<close> string type;
  the reflection client's element-not-found error; and one constructor for each
  \<^verbatim>\<open>fmt.Errorf\<close> of the package, holding the arguments of its format string
  (all of them are formatted with \<^verbatim>\<open>%q\<close>, \<^verbatim>\<open>%s\<close> or \<^verbatim>\<open>%v\<close>, never \<^verbatim>\<open>%w\<close>, so none of
  them wraps a status). A possibly-nil error is an \<^typ>\<open>'a option\<close>, \<^const>\<open>None\<close> for
  \<^verbatim>\<open>nil\<close>.
\<close>

datatype error =
    EOF
  | StatusError code string
  | Opaque string
  | ErrReflectionNotSupported
  | NotFoundError string
  | ElementNotFoundError string
  | MalformedMethodName string
  | ServiceNotExposed string
  | ServiceQueryFailed string error
  | MethodNotIncluded string string
  | ExtensionResolveFailed string error
  | RequestDataError error
  | TooManyRequestMessages string string
  | GrpcCallFailed string "error option"

text \<open>
  \<^verbatim>\<open>status.FromError(err)\<close> returns a status and a flag. The flag is false exactly when
  the error is non-nil and carries no status; the status returned with a false flag is
  discarded at every call site of the package, so the model returns \<^const>\<open>None\<close> for it.
  A nil error converts to the OK status.
\<close>

fun FromError :: "error option \<Rightarrow> status option" where
  "FromError None = Some (Status OK [])"
| "FromError (Some (StatusError c m)) = Some (Status c m)"
| "FromError (Some e) = None"

subsection \<open>Descriptors\<close>

datatype message_desc = MessageDesc string

fun msgFqn :: "message_desc \<Rightarrow> string" where
  "msgFqn (MessageDesc n) = n"

record method_desc =
  mtdName :: string
  mtdFqn :: string
  mtdInputType :: message_desc
  mtdOutputType :: message_desc
  mtdClientStreaming :: bool
  mtdServerStreaming :: bool

record service_desc =
  svcFqn :: string
  svcMethods :: "method_desc list"

datatype field_desc = FieldDesc string int

datatype descriptor =
    ServiceDescriptor service_desc
  | MessageDescriptor message_desc
  | MethodDescriptor method_desc
  | FieldDescriptor field_desc
  | EnumDescriptor string

text \<open>
  A file descriptor, as far as the package uses it here: its name and its symbol table
  (\<^verbatim>\<open>fd.FindSymbol\<close> returns \<^verbatim>\<open>nil\<close> for an unknown name).
\<close>

record file_desc =
  fdName :: string
  fdFindSymbol :: "string \<Rightarrow> descriptor option"

text \<open>
  The \<^verbatim>\<open>DescriptorSource\<close> interface: one field for each method. Each method returns a
  Go pair of a value and an error; a \<^verbatim>\<open>nil\<close> descriptor is \<^const>\<open>None\<close> and a \<^verbatim>\<open>nil\<close>
  slice is the empty list.
\<close>

record descriptor_source =
  srcListServices :: "string list \<times> error option"
  srcFindSymbol :: "string \<Rightarrow> descriptor option \<times> error option"
  srcAllExtensionsForType :: "string \<Rightarrow> field_desc list \<times> error option"

text \<open>
  \<^verbatim>\<open>notFound\<close> builds the package's own not-found error; \<^verbatim>\<open>isNotFoundError\<close> accepts it and
  the reflection client's element-not-found error.
\<close>

definition notFound :: "string \<Rightarrow> string \<Rightarrow> error" where
  "notFound kind name = NotFoundError (kind @ '' not found: '' @ name)"

definition isNotFoundError :: "error \<Rightarrow> bool" where
  "isNotFoundError err =
     (case err of ElementNotFoundError _ \<Rightarrow> True | NotFoundError _ \<Rightarrow> True | _ \<Rightarrow> False)"

section \<open>File-backed descriptor source\<close>

text \<open>
  \<^verbatim>\<open>fileSource.FindSymbol\<close> walks the files of the source (the values of the map
  \<^verbatim>\<open>fs.files\<close>, in the order the iteration visits them) and returns the first hit.
\<close>

fun fileSource_FindSymbol :: "file_desc list \<Rightarrow> string \<Rightarrow> descriptor option \<times> error option" where
  "fileSource_FindSymbol [] fullyQualifiedName = (None, Some (notFound ''Symbol'' fullyQualifiedName))"
| "fileSource_FindSymbol (fd # fds) fullyQualifiedName =
     (case fdFindSymbol fd fullyQualifiedName of
        Some dsc \<Rightarrow> (Some dsc, None)
      | None \<Rightarrow> fileSource_FindSymbol fds fullyQualifiedName)"

section \<open>Reflection-backed descriptor source\<close>

text \<open>
  The reflection client (\<^verbatim>\<open>grpcreflect.Client\<close>) is outside the package; its four
  operations are the fields of a record. \<^verbatim>\<open>ListServices\<close> returns a pair because the
  source passes the list on even when the error is non-nil.
\<close>

record refl_client =
  rcListServices :: "string list \<times> error option"
  rcFileContainingSymbol :: "string \<Rightarrow> error + file_desc"
  rcAllExtensionNumbersForType :: "string \<Rightarrow> error + int list"
  rcResolveExtension :: "string \<Rightarrow> int \<Rightarrow> error + field_desc"

definition reflectionSupport :: "error option \<Rightarrow> error option" where
  "reflectionSupport err =
     (case err of
        None \<Rightarrow> None
      | Some e \<Rightarrow>
          (case FromError (Some e) of
             Some stat \<Rightarrow> if Code stat = Unimplemented then Some ErrReflectionNotSupported else Some e
           | None \<Rightarrow> Some e))"

definition serverSource_ListServices :: "refl_client \<Rightarrow> string list \<times> error option" where
  "serverSource_ListServices client =
     (case rcListServices client of (svcs, err) \<Rightarrow> (svcs, reflectionSupport err))"

definition serverSource_FindSymbol :: "refl_client \<Rightarrow> string \<Rightarrow> descriptor option \<times> error option" where
  "serverSource_FindSymbol client fullyQualifiedName =
     (case rcFileContainingSymbol client fullyQualifiedName of
        Inl err \<Rightarrow> (None, reflectionSupport (Some err))
      | Inr file \<Rightarrow>
          (case fdFindSymbol file fullyQualifiedName of
             None \<Rightarrow> (None, Some (notFound ''Symbol'' fullyQualifiedName))
           | Some d \<Rightarrow> (Some d, None)))"

text \<open>The loop over the extension numbers; \<open>exts\<close> is the slice built so far.\<close>

fun resolveExtensions ::
  "refl_client \<Rightarrow> string \<Rightarrow> int list \<Rightarrow> field_desc list \<Rightarrow> field_desc list \<times> error option" where
  "resolveExtensions client typeName [] exts = (exts, None)"
| "resolveExtensions client typeName (fieldNum # nums) exts =
     (case rcResolveExtension client typeName fieldNum of
        Inl err \<Rightarrow> ([], reflectionSupport (Some err))
      | Inr ext \<Rightarrow> resolveExtensions client typeName nums (exts @ [ext]))"

definition serverSource_AllExtensionsForType ::
  "refl_client \<Rightarrow> string \<Rightarrow> field_desc list \<times> error option" where
  "serverSource_AllExtensionsForType client typeName =
     (case rcAllExtensionNumbersForType client typeName of
        Inl err \<Rightarrow> ([], reflectionSupport (Some err))
      | Inr nums \<Rightarrow> resolveExtensions client typeName nums [])"

definition DescriptorSourceFromServer :: "refl_client \<Rightarrow> descriptor_source" where
  "DescriptorSourceFromServer client =
     \<lparr> srcListServices = serverSource_ListServices client,
       srcFindSymbol = serverSource_FindSymbol client,
       srcAllExtensionsForType = serverSource_AllExtensionsForType client \<rparr>"

section \<open>Listing methods\<close>

definition ListMethods :: "descriptor_source \<Rightarrow> string \<Rightarrow> string list \<times> error option" where
  "ListMethods source serviceName =
     (case srcFindSymbol source serviceName of (dsc, err) \<Rightarrow>
        if err \<noteq> None then ([], err)
        else (case dsc of
                Some (ServiceDescriptor sd) \<Rightarrow> (sort (map mtdName (svcMethods sd)), None)
              | _ \<Rightarrow> ([], Some (notFound ''Service'' serviceName))))"

section \<open>Method names\<close>

text \<open>
  \<^verbatim>\<open>strings.LastIndex(s, sep)\<close> for a one-byte separator: the index of the last
  occurrence, or \<open>-1\<close>.
\<close>

fun LastIndex :: "string \<Rightarrow> char \<Rightarrow> int" where
  "LastIndex [] c = - 1"
| "LastIndex (x # xs) c =
     (let r = LastIndex xs c
      in if 0 \<le> r then r + 1 else if x = c then 0 else - 1)"

definition parseSymbol :: "string \<Rightarrow> string \<times> string" where
  "parseSymbol svcAndMethod =
     (let pos = LastIndex svcAndMethod (CHR ''/'')
      in if pos < 0
         then (let pos = LastIndex svcAndMethod (CHR ''.'')
               in if pos < 0 then ([], [])
                  else (take (nat pos) svcAndMethod, drop (nat (pos + 1)) svcAndMethod))
         else (take (nat pos) svcAndMethod, drop (nat (pos + 1)) svcAndMethod))"

section \<open>Descriptor text\<close>

text \<open>
  The printer (\<^verbatim>\<open>protoprint.Printer\<close>) is outside the package; its result for the
  descriptor is the argument. Indexing \<^verbatim>\<open>txt[len(txt)-1]\<close> of an empty string is a
  run-time panic in Go, which the result type makes a value.
\<close>

datatype 'a outcome = Returns 'a | Panics

definition GetDescriptorText :: "error + string \<Rightarrow> (string \<times> error option) outcome" where
  "GetDescriptorText printed =
     (case printed of
        Inl err \<Rightarrow> Returns ([], Some err)
      | Inr txt \<Rightarrow>
          if txt = [] then Panics
          else if txt ! (length txt - 1) = CHR 0x0A
               then Returns (take (length txt - 1) txt, None)
               else Returns (txt, None))"

section \<open>Library functions on strings\<close>

text \<open>
  The functions of Go's \<^verbatim>\<open>strings\<close> and \<^verbatim>\<open>encoding/base64\<close> packages that the metadata
  codec calls. They are not part of the package; the definitions follow the library's
  documented behaviour on byte strings.
\<close>

text \<open>\<^verbatim>\<open>strings.Index(s, sep)\<close> for a one-byte separator: the first occurrence, or \<open>-1\<close>.\<close>

fun Index :: "string \<Rightarrow> char \<Rightarrow> int" where
  "Index [] c = - 1"
| "Index (x # xs) c =
     (if x = c then 0 else (let r = Index xs c in if r < 0 then - 1 else r + 1))"

text \<open>\<^verbatim>\<open>strings.SplitN(s, sep, 2)\<close>: one piece when the separator is absent, else two.\<close>

definition SplitN2 :: "string \<Rightarrow> char \<Rightarrow> string list" where
  "SplitN2 s sep =
     (let i = Index s sep
      in if i < 0 then [s] else [take (nat i) s, drop (nat (i + 1)) s])"

definition HasSuffix :: "string \<Rightarrow> string \<Rightarrow> bool" where
  "HasSuffix s suffix =
     (length suffix \<le> length s \<and> drop (length s - length suffix) s = suffix)"

text \<open>
  \<^verbatim>\<open>strings.TrimSpace\<close> removes leading and trailing white space as defined by Unicode
  (\<^verbatim>\<open>unicode.IsSpace\<close>). On a byte string a rune is white space exactly when its bytes are
  the UTF-8 encoding of one of the code points U+0009 to U+000D, U+0020, U+0085, U+00A0,
  U+1680, U+2000 to U+200A, U+2028, U+2029, U+202F, U+205F, U+3000.
\<close>

definition spaceRunes :: "string list" where
  "spaceRunes =
     [[CHR 0x09], [CHR 0x0A], [CHR 0x0B], [CHR 0x0C], [CHR 0x0D], [CHR 0x20],
      [CHR 0xC2, CHR 0x85], [CHR 0xC2, CHR 0xA0],
      [CHR 0xE1, CHR 0x9A, CHR 0x80],
      [CHR 0xE2, CHR 0x80, CHR 0x80], [CHR 0xE2, CHR 0x80, CHR 0x81],
      [CHR 0xE2, CHR 0x80, CHR 0x82], [CHR 0xE2, CHR 0x80, CHR 0x83],
      [CHR 0xE2, CHR 0x80, CHR 0x84], [CHR 0xE2, CHR 0x80, CHR 0x85],
      [CHR 0xE2, CHR 0x80, CHR 0x86], [CHR 0xE2, CHR 0x80, CHR 0x87],
      [CHR 0xE2, CHR 0x80, CHR 0x88], [CHR 0xE2, CHR 0x80, CHR 0x89],
      [CHR 0xE2, CHR 0x80, CHR 0x8A],
      [CHR 0xE2, CHR 0x80, CHR 0xA8], [CHR 0xE2, CHR 0x80, CHR 0xA9],
      [CHR 0xE2, CHR 0x80, CHR 0xAF], [CHR 0xE2, CHR 0x81, CHR 0x9F],
      [CHR 0xE3, CHR 0x80, CHR 0x80]]"

definition leadingRune :: "string list \<Rightarrow> string \<Rightarrow> string option" where
  "leadingRune runes s = find (\<lambda>p. p \<noteq> [] \<and> take (length p) s = p) runes"

function dropLeading :: "string list \<Rightarrow> string \<Rightarrow> string" where
  "dropLeading runes s =
     (case leadingRune runes s of
        None \<Rightarrow> s
      | Some p \<Rightarrow> dropLeading runes (drop (length p) s))"
  by pat_completeness auto
termination
proof (relation "measure (\<lambda>(runes, s). length s)")
  show "wf (measure (\<lambda>(runes, s). length s))" by simp
next
  fix runes :: "string list" and s p :: string
  assume "leadingRune runes s = Some p"
  then have "p \<noteq> []" and "take (length p) s = p"
    by (auto simp: leadingRune_def find_Some_iff)
  then have "s \<noteq> []" by auto
  with \<open>p \<noteq> []\<close> show "((runes, drop (length p) s), (runes, s)) \<in> measure (\<lambda>(runes, s). length s)"
    by simp
qed

declare dropLeading.simps [simp del]

definition TrimSpace :: "string \<Rightarrow> string" where
  "TrimSpace s = rev (dropLeading (map rev spaceRunes) (rev (dropLeading spaceRunes s)))"

text \<open>
  \<^verbatim>\<open>strings.ToLower\<close>: a string of ASCII bytes only has its letters A to Z replaced;
  any other string goes through the Unicode case tables
  (\<^verbatim>\<open>strings.Map(unicode.ToLower, s)\<close>), which are a parameter here.
\<close>

definition lowerASCII :: "char \<Rightarrow> char" where
  "lowerASCII c =
     (if CHR ''A'' \<le> c \<and> c \<le> CHR ''Z'' then char_of (of_char c + (32::nat)) else c)"

definition ToLower :: "(string \<Rightarrow> string) \<Rightarrow> string \<Rightarrow> string" where
  "ToLower unicodeLower s =
     (if \<forall>c \<in> set s. (of_char c :: nat) < 128 then map lowerASCII s else unicodeLower s)"

subsection \<open>Base64\<close>

text \<open>
  An encoding is its 64-character alphabet and its padding character (\<^const>\<open>None\<close> for
  \<^verbatim>\<open>NoPadding\<close>). None of the four encodings the package uses is strict.
\<close>

record encoding =
  encode :: string
  padChar :: "char option"

definition encodeStd :: string where
  "encodeStd = ''ABCDEFGHIJKLMNOPQRSTUVWXYZabcdefghijklmnopqrstuvwxyz0123456789+/''"

definition encodeURL :: string where
  "encodeURL = ''ABCDEFGHIJKLMNOPQRSTUVWXYZabcdefghijklmnopqrstuvwxyz0123456789-_''"

definition StdEncoding :: encoding where
  "StdEncoding = \<lparr> encode = encodeStd, padChar = Some (CHR ''='') \<rparr>"

definition URLEncoding :: encoding where
  "URLEncoding = \<lparr> encode = encodeURL, padChar = Some (CHR ''='') \<rparr>"

definition RawStdEncoding :: encoding where
  "RawStdEncoding = \<lparr> encode = encodeStd, padChar = None \<rparr>"

definition RawURLEncoding :: encoding where
  "RawURLEncoding = \<lparr> encode = encodeURL, padChar = None \<rparr>"

text \<open>The decode map: the position of a byte in the alphabet, if it is there.\<close>

fun indexOf :: "'a list \<Rightarrow> 'a \<Rightarrow> nat option" where
  "indexOf [] c = None"
| "indexOf (x # xs) c = (if x = c then Some 0 else map_option Suc (indexOf xs c))"

definition decodeMap :: "encoding \<Rightarrow> char \<Rightarrow> nat option" where
  "decodeMap enc c = indexOf (encode enc) c"

definition padding :: "encoding \<Rightarrow> nat \<Rightarrow> string" where
  "padding enc n = (case padChar enc of None \<Rightarrow> [] | Some p \<Rightarrow> replicate n p)"

text \<open>
  \<^verbatim>\<open>EncodeToString\<close>: three bytes make the 24-bit value
  \<^verbatim>\<open>b0<<16 | b1<<8 | b2\<close>, written as four characters of six bits each; a rest of one or
  two bytes is written as two or three characters and padded.
\<close>

definition sextet :: "nat \<Rightarrow> nat \<Rightarrow> nat" where
  "sextet val k = drop_bit k val mod 64"

fun EncodeToString :: "encoding \<Rightarrow> string \<Rightarrow> string" where
  "EncodeToString enc (b0 # b1 # b2 # src) =
     (let val = push_bit 16 (of_char b0) + push_bit 8 (of_char b1) + of_char b2
      in [encode enc ! sextet val 18, encode enc ! sextet val 12,
          encode enc ! sextet val 6, encode enc ! sextet val 0] @ EncodeToString enc src)"
| "EncodeToString enc [b0, b1] =
     (let val = push_bit 16 (of_char b0) + push_bit 8 (of_char b1)
      in [encode enc ! sextet val 18, encode enc ! sextet val 12, encode enc ! sextet val 6]
         @ padding enc 1)"
| "EncodeToString enc [b0] =
     (let val = push_bit 16 (of_char b0)
      in [encode enc ! sextet val 18, encode enc ! sextet val 12] @ padding enc 2)"
| "EncodeToString enc [] = []"

text \<open>
  \<^verbatim>\<open>DecodeString\<close>. The decoder reads quanta of four alphabet characters; \<open>dbuf\<close> holds
  the six-bit values of the current quantum. Carriage returns and line feeds are skipped.
  At the end of the input an empty quantum is fine, a single character is corrupt, and two
  or three characters are accepted only without padding. A padding character is accepted
  only by a padded encoding, after two characters (then a second one must follow) or after
  three, and only newlines may follow it. A full quantum yields three bytes, a quantum of
  three characters two, of two characters one; unused low bits are not checked. The
  entries of \<open>dbuf\<close> that were not read are zero.
  \<^const>\<open>None\<close> is \<^verbatim>\<open>CorruptInputError\<close>.
\<close>

definition isNewline :: "char \<Rightarrow> bool" where
  "isNewline c = (c = CHR 0x0A \<or> c = CHR 0x0D)"

definition dbufAt :: "nat list \<Rightarrow> nat \<Rightarrow> nat" where
  "dbufAt dbuf k = (if k < length dbuf then dbuf ! k else 0)"

definition quantumBytes :: "nat list \<Rightarrow> string" where
  "quantumBytes dbuf =
     (let val = push_bit 18 (dbufAt dbuf 0) + push_bit 12 (dbufAt dbuf 1)
                + push_bit 6 (dbufAt dbuf 2) + dbufAt dbuf 3
      in take (length dbuf - 1)
           [char_of (drop_bit 16 val), char_of (drop_bit 8 val), char_of val])"

fun decodeFrom :: "encoding \<Rightarrow> nat list \<Rightarrow> string \<Rightarrow> string option" where
  "decodeFrom enc dbuf [] =
     (if dbuf = [] then Some []
      else if length dbuf = 1 \<or> padChar enc \<noteq> None then None
      else Some (quantumBytes dbuf))"
| "decodeFrom enc dbuf (c # src) =
     (case decodeMap enc c of
        Some out \<Rightarrow>
          if length dbuf = 3
          then map_option ((@) (quantumBytes (dbuf @ [out]))) (decodeFrom enc [] src)
          else decodeFrom enc (dbuf @ [out]) src
      | None \<Rightarrow>
          if isNewline c then decodeFrom enc dbuf src
          else if Some c \<noteq> padChar enc then None
          else if length dbuf < 2 then None
          else if length dbuf = 2
          then (case dropWhile isNewline src of
                  [] \<Rightarrow> None
                | d # rest \<Rightarrow>
                    if Some d \<noteq> padChar enc then None
                    else if dropWhile isNewline rest \<noteq> [] then None
                    else Some (quantumBytes dbuf))
          else if dropWhile isNewline src \<noteq> [] then None
          else Some (quantumBytes dbuf))"

definition DecodeString :: "encoding \<Rightarrow> string \<Rightarrow> string option" where
  "DecodeString enc s = decodeFrom enc [] s"

text \<open>The characters a padded standard encoding is made of.\<close>

definition base64Chars :: "char set" where
  "base64Chars = set encodeStd \<union> {CHR ''=''}"

section \<open>Metadata codec\<close>

text \<open>
  \<^verbatim>\<open>metadata.MD\<close> is a Go map from names to lists of values. It is modelled as an
  association list with one entry for each name; \<^verbatim>\<open>md[k] = append(md[k], v)\<close> extends the
  entry of \<open>k\<close> or adds one.
\<close>

type_synonym md = "(string \<times> string list) list"

definition mdAppend :: "md \<Rightarrow> string \<Rightarrow> string \<Rightarrow> md" where
  "mdAppend m k v =
     (case map_of m k of
        None \<Rightarrow> m @ [(k, [v])]
      | Some vs \<Rightarrow> map (\<lambda>(k', vs'). if k' = k then (k', vs' @ [v]) else (k', vs')) m)"

definition base64Codecs :: "encoding list" where
  "base64Codecs = [StdEncoding, URLEncoding, RawStdEncoding, RawURLEncoding]"

text \<open>
  \<^verbatim>\<open>decode\<close> returns the first successful decoding, or the first error when every codec
  fails; the caller reads of the error only whether it is nil, so the result is an option.
\<close>

fun decodeWith :: "encoding list \<Rightarrow> string \<Rightarrow> string option" where
  "decodeWith [] val = None"
| "decodeWith (d # ds) val =
     (case DecodeString d val of
        None \<Rightarrow> decodeWith ds val
      | Some b \<Rightarrow> Some b)"

definition decode :: "string \<Rightarrow> string option" where
  "decode val = decodeWith base64Codecs val"

definition addHeader :: "(string \<Rightarrow> string) \<Rightarrow> md \<Rightarrow> string \<Rightarrow> md" where
  "addHeader unicodeLower m part =
     (if part \<noteq> []
      then (let pieces = SplitN2 part (CHR '':'');
                pieces = (if length pieces = 1 then pieces @ [[]] else pieces);
                headerName = ToLower unicodeLower (TrimSpace (pieces ! 0));
                val = TrimSpace (pieces ! 1);
                val = (if HasSuffix headerName ''-bin''
                       then (case decode val of Some v \<Rightarrow> v | None \<Rightarrow> val)
                       else val)
            in mdAppend m headerName val)
      else m)"

definition MetadataFromHeaders :: "(string \<Rightarrow> string) \<Rightarrow> string list \<Rightarrow> md" where
  "MetadataFromHeaders unicodeLower headers = foldl (addHeader unicodeLower) [] headers"

text \<open>
  \<^verbatim>\<open>MetadataToString\<close>: the loop state is the buffer and the flag \<^verbatim>\<open>first\<close>.
\<close>

definition writeValue :: "string \<Rightarrow> string \<times> bool \<Rightarrow> string \<Rightarrow> string \<times> bool" where
  "writeValue k st v =
     (case st of (b, first) \<Rightarrow>
        (let b = (if first then b else b @ [CHR 0x0A]);
             b = b @ k @ '': '';
             v = (if HasSuffix k ''-bin'' then EncodeToString StdEncoding v else v)
         in (b @ v, False)))"

definition writeKey :: "md \<Rightarrow> string \<times> bool \<Rightarrow> string \<Rightarrow> string \<times> bool" where
  "writeKey m st k =
     (let vs = (case map_of m k of None \<Rightarrow> [] | Some vs \<Rightarrow> vs)
      in foldl (writeValue k) st vs)"

definition MetadataToString :: "md \<Rightarrow> string" where
  "MetadataToString m =
     (if length m = 0 then ''(empty)''
      else (let keys = sort (map fst m)
            in fst (foldl (writeKey m) ([], True) keys)))"

subsection \<open>The parse step as the specification words it\<close>

text \<open>
  The specification describes one header at a time: the name is the text before the first
  colon, trimmed and lowercased; the value is the text after it (empty without a colon),
  trimmed, and for a name ending in \<open>-bin\<close> replaced by the first successful decoding
  among standard, URL-safe, raw standard and raw URL-safe base64, in that order; each
  non-empty header adds the pair to an ordered multimap. \<open>valuesOf\<close> reads the values of a
  name from the list of pairs, and \<open>mdInv\<close> relates a Go map to such a list.
\<close>

definition specHeaderName :: "(string \<Rightarrow> string) \<Rightarrow> string \<Rightarrow> string" where
  "specHeaderName unicodeLower part =
     ToLower unicodeLower (TrimSpace (takeWhile (\<lambda>c. c \<noteq> CHR '':'') part))"

definition specDecode :: "string \<Rightarrow> string" where
  "specDecode val =
     (case DecodeString StdEncoding val of
        Some v \<Rightarrow> v
      | None \<Rightarrow>
          (case DecodeString URLEncoding val of
             Some v \<Rightarrow> v
           | None \<Rightarrow>
               (case DecodeString RawStdEncoding val of
                  Some v \<Rightarrow> v
                | None \<Rightarrow>
                    (case DecodeString RawURLEncoding val of
                       Some v \<Rightarrow> v
                     | None \<Rightarrow> val))))"

definition specHeaderValue :: "(string \<Rightarrow> string) \<Rightarrow> string \<Rightarrow> string" where
  "specHeaderValue unicodeLower part =
     (let val = TrimSpace (drop 1 (dropWhile (\<lambda>c. c \<noteq> CHR '':'') part))
      in if take 4 (rev (specHeaderName unicodeLower part)) = rev ''-bin''
         then specDecode val else val)"

definition specPairs :: "(string \<Rightarrow> string) \<Rightarrow> string list \<Rightarrow> (string \<times> string) list" where
  "specPairs unicodeLower headers =
     map (\<lambda>part. (specHeaderName unicodeLower part, specHeaderValue unicodeLower part))
       (filter (\<lambda>part. part \<noteq> []) headers)"

definition valuesOf :: "string \<Rightarrow> (string \<times> string) list \<Rightarrow> string list" where
  "valuesOf k pairs = map snd (filter (\<lambda>p. fst p = k) pairs)"

definition mdInv :: "md \<Rightarrow> (string \<times> string) list \<Rightarrow> bool" where
  "mdInv m pairs \<longleftrightarrow>
     distinct (map fst m)
     \<and> (\<forall>k. map_of m k = (if k \<in> fst ` set pairs then Some (valuesOf k pairs) else None))"

section \<open>Invocation engine\<close>

subsection \<open>Messages, events and the environment\<close>

text \<open>
  A dynamic message: the name of its message type and the fields that are set.
  \<^verbatim>\<open>NewMessage\<close> makes the empty message of a type and \<^verbatim>\<open>Reset\<close> clears the fields.
\<close>

datatype message = Message string "(nat \<times> string) list"

definition NewMessage :: "message_desc \<Rightarrow> message" where
  "NewMessage md = Message (msgFqn md) []"

fun Reset :: "message \<Rightarrow> message" where
  "Reset (Message d fs) = Message d []"

text \<open>
  What an invocation does to the outside is a trace: the callbacks of the
  \<^verbatim>\<open>InvocationEventHandler\<close> and the calls that dispatch the RPC on the stub (with the
  request message, where the call takes one). A response passed to
  \<^verbatim>\<open>OnReceiveResponse\<close> may be a \<^verbatim>\<open>nil\<close> interface value, hence the option.
\<close>

datatype event =
    OnResolveMethod method_desc
  | OnSendHeaders md
  | OnReceiveHeaders md
  | OnReceiveResponse "message option"
  | OnReceiveTrailers status md
  | StubInvokeRpc message
  | StubInvokeRpcServerStream message
  | StubInvokeRpcClientStream
  | StubInvokeRpcBidiStream

fun isTrailers :: "event \<Rightarrow> bool" where
  "isTrailers (OnReceiveTrailers stat trailers) = True"
| "isTrailers _ = False"

text \<open>
  An invocation either returns an error (possibly \<^verbatim>\<open>nil\<close>) or panics on a nil
  dereference; either way it leaves a trace.
\<close>

type_synonym run = "error option outcome \<times> event list"

text \<open>
  The request supplier is a Go closure that writes into the message it is given and
  returns an error. Its \<open>i\<close>-th call (counted from 0), on the message as it is then, gives
  the error and the message as the call leaves it.
\<close>

type_synonym supplier = "nat \<Rightarrow> message \<Rightarrow> error option \<times> message"

text \<open>
  The dynamic stub and its streams (\<^verbatim>\<open>grpcdynamic\<close>) are outside the package. A unary
  call gives a response, an error, and the header and trailer metadata stored through the
  call options. A stream gives the result of \<^verbatim>\<open>Header()\<close>, of its \<open>i\<close>-th \<^verbatim>\<open>RecvMsg()\<close>
  and \<^verbatim>\<open>SendMsg\<close>, of \<^verbatim>\<open>CloseSend()\<close> or \<^verbatim>\<open>CloseAndReceive()\<close>, and of \<^verbatim>\<open>Trailer()\<close>.
  Opening a stream returns a pointer to the stream, which may be \<^verbatim>\<open>nil\<close>, and an error.
\<close>

record unary_reply =
  urResp :: "message option"
  urErr :: "error option"
  urHeaders :: md
  urTrailers :: md

record server_stream =
  ssHeader :: "error + md"
  ssRecvMsg :: "nat \<Rightarrow> error + message"
  ssTrailer :: md

record client_stream =
  csHeader :: "error + md"
  csSendMsg :: "nat \<Rightarrow> message \<Rightarrow> error option"
  csCloseAndReceive :: "message option \<times> error option"
  csTrailer :: md

record bidi_stream =
  bsHeader :: "error + md"
  bsSendMsg :: "nat \<Rightarrow> message \<Rightarrow> error option"
  bsCloseSend :: "error option"
  bsRecvMsg :: "nat \<Rightarrow> error + message"
  bsTrailer :: md

record stub =
  stInvokeRpc :: "method_desc \<Rightarrow> message \<Rightarrow> unary_reply"
  stInvokeRpcServerStream :: "method_desc \<Rightarrow> message \<Rightarrow> server_stream option \<times> error option"
  stInvokeRpcClientStream :: "method_desc \<Rightarrow> client_stream option \<times> error option"
  stInvokeRpcBidiStream :: "method_desc \<Rightarrow> bidi_stream option \<times> error option"

subsection \<open>Unary and server-streaming calls\<close>

text \<open>
  The first lines of \<^verbatim>\<open>invokeUnary\<close> and of \<^verbatim>\<open>invokeServerStream\<close> are the same up to
  one word of an error message (\<open>kind\<close>): they call the supplier once and, unless it
  returned \<^verbatim>\<open>io.EOF\<close>, a second time, which must return \<^verbatim>\<open>io.EOF\<close>. The result is the
  error to return, or the request message as the supplier left it.
\<close>

definition readSingleRequest ::
  "string \<Rightarrow> method_desc \<Rightarrow> supplier \<Rightarrow> message \<Rightarrow> error + message" where
  "readSingleRequest kind md requestData req =
     (case requestData 0 req of (err, req1) \<Rightarrow>
        if err \<noteq> None \<and> err \<noteq> Some EOF then Inl (RequestDataError (the err))
        else if err \<noteq> Some EOF
        then (case requestData 1 req1 of (err2, req2) \<Rightarrow>
                if err2 = None then Inl (TooManyRequestMessages (mtdFqn md) kind)
                else if err2 \<noteq> Some EOF then Inl (RequestDataError (the err2))
                else Inr req2)
        else Inr req1)"

definition invokeUnary :: "stub \<Rightarrow> method_desc \<Rightarrow> supplier \<Rightarrow> message \<Rightarrow> run" where
  "invokeUnary stub md requestData req =
     (case readSingleRequest ''unary'' md requestData req of
        Inl e \<Rightarrow> (Returns (Some e), [])
      | Inr req \<Rightarrow>
          (let reply = stInvokeRpc stub md req;
               err = urErr reply
           in case FromError err of
                None \<Rightarrow> (Returns (Some (GrpcCallFailed (mtdFqn md) err)), [StubInvokeRpc req])
              | Some stat \<Rightarrow>
                  (Returns None,
                   [StubInvokeRpc req, OnReceiveHeaders (urHeaders reply)]
                   @ (if Code stat = OK then [OnReceiveResponse (urResp reply)] else [])
                   @ [OnReceiveTrailers stat (urTrailers reply)])))"

text \<open>
  The receive loop of \<^verbatim>\<open>invokeServerStream\<close> and \<^verbatim>\<open>invokeBidi\<close>: \<open>i\<close> counts the calls
  of \<^verbatim>\<open>RecvMsg\<close>, \<open>evs\<close> is the trace so far. It ends at the first error, with
  \<^verbatim>\<open>io.EOF\<close> turned into \<^verbatim>\<open>nil\<close>; a stream that never errs keeps it running, and then
  the result is \<^const>\<open>None\<close>.
\<close>

partial_function (option) recvLoop ::
  "(nat \<Rightarrow> error + message) \<Rightarrow> nat \<Rightarrow> event list \<Rightarrow> (error option \<times> event list) option" where
  "recvLoop recvMsg i evs =
     (case recvMsg i of
        Inl err \<Rightarrow> Some (if err = EOF then None else Some err, evs)
      | Inr resp \<Rightarrow> recvLoop recvMsg (Suc i) (evs @ [OnReceiveResponse (Some resp)]))"

definition headerEvents :: "error + md \<Rightarrow> event list" where
  "headerEvents h = (case h of Inr respHeaders \<Rightarrow> [OnReceiveHeaders respHeaders] | Inl err \<Rightarrow> [])"

definition invokeServerStream :: "stub \<Rightarrow> method_desc \<Rightarrow> supplier \<Rightarrow> message \<Rightarrow> run option" where
  "invokeServerStream stub md requestData req =
     (case readSingleRequest ''server-streaming'' md requestData req of
        Inl e \<Rightarrow> Some (Returns (Some e), [])
      | Inr req \<Rightarrow>
          (case stInvokeRpcServerStream stub md req of (str, err) \<Rightarrow>
             (case str of
                None \<Rightarrow> Some (Panics, [StubInvokeRpcServerStream req])
              | Some s \<Rightarrow>
                  (let evs = [StubInvokeRpcServerStream req] @ headerEvents (ssHeader s)
                   in case (if err = None then recvLoop (ssRecvMsg s) 0 evs else Some (err, evs)) of
                        None \<Rightarrow> None
                      | Some (err, evs) \<Rightarrow>
                          (case FromError err of
                             None \<Rightarrow> Some (Returns (Some (GrpcCallFailed (mtdFqn md) err)), evs)
                           | Some stat \<Rightarrow>
                               Some (Returns None, evs @ [OnReceiveTrailers stat (ssTrailer s)]))))))"

subsection \<open>Client-streaming calls\<close>

text \<open>
  The upload loop of \<^verbatim>\<open>invokeClientStream\<close>, entered when opening the stream gave no
  error: \<open>i\<close> counts the iterations. It leaves the function (\<^const>\<open>Inl\<close>) when the supplier
  fails, or on a nil stream pointer; otherwise it ends (\<^const>\<open>Inr\<close>) with the response and
  the error of \<^verbatim>\<open>CloseAndReceive\<close>, or with the error of \<^verbatim>\<open>SendMsg\<close>.
\<close>

partial_function (option) clientSendLoop ::
  "supplier \<Rightarrow> client_stream option \<Rightarrow> nat \<Rightarrow> message
     \<Rightarrow> (error option outcome + message option \<times> error option) option" where
  "clientSendLoop requestData str i req =
     (case requestData i req of (err, req) \<Rightarrow>
        if err = Some EOF
        then (case str of None \<Rightarrow> Some (Inl Panics) | Some s \<Rightarrow> Some (Inr (csCloseAndReceive s)))
        else if err \<noteq> None then Some (Inl (Returns (Some (RequestDataError (the err)))))
        else (case str of
                None \<Rightarrow> Some (Inl Panics)
              | Some s \<Rightarrow>
                  (case csSendMsg s i req of
                     None \<Rightarrow> clientSendLoop requestData str (Suc i) (Reset req)
                   | Some err \<Rightarrow>
                       if err = EOF then Some (Inr (csCloseAndReceive s))
                       else Some (Inr (None, Some err)))))"

definition invokeClientStream :: "stub \<Rightarrow> method_desc \<Rightarrow> supplier \<Rightarrow> message \<Rightarrow> run option" where
  "invokeClientStream stub md requestData req =
     (case stInvokeRpcClientStream stub md of (str, err) \<Rightarrow>
        (case (if err = None then clientSendLoop requestData str 0 req else Some (Inr (None, err))) of
           None \<Rightarrow> None
         | Some (Inl out) \<Rightarrow> Some (out, [StubInvokeRpcClientStream])
         | Some (Inr (resp, err)) \<Rightarrow>
             (case FromError err of
                None \<Rightarrow>
                  Some (Returns (Some (GrpcCallFailed (mtdFqn md) err)), [StubInvokeRpcClientStream])
              | Some stat \<Rightarrow>
                  (case str of
                     None \<Rightarrow> Some (Panics, [StubInvokeRpcClientStream])
                   | Some s \<Rightarrow>
                       Some (Returns None,
                             [StubInvokeRpcClientStream] @ headerEvents (csHeader s)
                             @ (if Code stat = OK then [OnReceiveResponse resp] else [])
                             @ [OnReceiveTrailers stat (csTrailer s)])))))"

subsection \<open>Bidirectional calls\<close>

text \<open>
  The send task of \<^verbatim>\<open>invokeBidi\<close> runs in a goroutine of its own. Its loop ends with the
  error it then stores in the cell \<^verbatim>\<open>sendErr\<close> (nothing is stored for \<^verbatim>\<open>nil\<close>); the
  result is \<^const>\<open>None\<close> when the loop never ends.
\<close>

partial_function (option) bidiSendLoop ::
  "supplier \<Rightarrow> bidi_stream \<Rightarrow> nat \<Rightarrow> message \<Rightarrow> error option option" where
  "bidiSendLoop requestData s i req =
     (case requestData i req of (err, req) \<Rightarrow>
        if err = Some EOF then Some (bsCloseSend s)
        else if err \<noteq> None then Some (Some (RequestDataError (the err)))
        else (case bsSendMsg s i req of
                None \<Rightarrow> bidiSendLoop requestData s (Suc i) (Reset req)
              | Some err \<Rightarrow> Some (Some err)))"

text \<open>
  The two goroutines share the stream, which is part of the environment, the wait group
  and the cell \<^verbatim>\<open>sendErr\<close>, which the send task writes at most once, at its end, and the
  calling goroutine reads once, after its receive loop. What the read sees depends on the
  interleaving only through one bit: whether the send task's store came before it
  (\<open>storedBeforeLoad\<close>). \<^verbatim>\<open>wg.Wait()\<close> is deferred: it runs when the function returns,
  after the status has been classified and the trailers event fired, and the function
  does not return while the send task runs.
\<close>

definition invokeBidi ::
  "stub \<Rightarrow> method_desc \<Rightarrow> supplier \<Rightarrow> message \<Rightarrow> bool \<Rightarrow> run option" where
  "invokeBidi stub md requestData req storedBeforeLoad =
     (case stInvokeRpcBidiStream stub md of (str, err) \<Rightarrow>
        (case str of
           None \<Rightarrow> Some (Panics, [StubInvokeRpcBidiStream])
         | Some s \<Rightarrow>
             (let sendTask = (if err = None then bidiSendLoop requestData s 0 req else Some None);
                  evs = [StubInvokeRpcBidiStream] @ headerEvents (bsHeader s)
              in case (if err = None then recvLoop (bsRecvMsg s) 0 evs else Some (err, evs)) of
                   None \<Rightarrow> None
                 | Some (err, evs) \<Rightarrow>
                     (let sendErr = (if storedBeforeLoad
                                     then (case sendTask of None \<Rightarrow> None | Some stored \<Rightarrow> stored)
                                     else None);
                          err = (case sendErr of
                                   Some se \<Rightarrow> if se \<noteq> EOF then Some se else err
                                 | None \<Rightarrow> err);
                          result = (case FromError err of
                                      None \<Rightarrow> (Returns (Some (GrpcCallFailed (mtdFqn md) err)), evs)
                                    | Some stat \<Rightarrow>
                                        (Returns None, evs @ [OnReceiveTrailers stat (bsTrailer s)]))
                      in case sendTask of
                           None \<Rightarrow> None
                         | Some stored \<Rightarrow> Some result))))"

subsection \<open>The entry point\<close>

definition FindMethodByName :: "service_desc \<Rightarrow> string \<Rightarrow> method_desc option" where
  "FindMethodByName sd name = find (\<lambda>m. mtdName m = name) (svcMethods sd)"

text \<open>
  \<^verbatim>\<open>InvokeRPC\<close>. The two calls of \<^verbatim>\<open>fetchAllExtensions\<close> only decide whether the
  invocation goes on; their results are the arguments \<open>extIn\<close> and \<open>extOut\<close>. The trace of
  the chosen sub-protocol follows the two events fired before it.
\<close>

definition failWith :: "error \<Rightarrow> event list \<Rightarrow> run option" where
  "failWith e evs = Some (Returns (Some e), evs)"

definition InvokeRPC ::
  "(string \<Rightarrow> string) \<Rightarrow> descriptor_source \<Rightarrow> error option \<Rightarrow> error option \<Rightarrow> stub \<Rightarrow> bool
     \<Rightarrow> string \<Rightarrow> string list \<Rightarrow> supplier \<Rightarrow> run option" where
  "InvokeRPC unicodeLower source extIn extOut stub storedBeforeLoad methodName headers requestData =
     (let md = MetadataFromHeaders unicodeLower headers
      in case parseSymbol methodName of (svc, mth) \<Rightarrow>
        if svc = [] \<or> mth = [] then failWith (MalformedMethodName methodName) []
        else (case srcFindSymbol source svc of (dsc, err) \<Rightarrow>
          (case err of
             Some e \<Rightarrow>
               if isNotFoundError e then failWith (ServiceNotExposed svc) []
               else failWith (ServiceQueryFailed svc e) []
           | None \<Rightarrow>
               (case dsc of
                  Some (ServiceDescriptor sd) \<Rightarrow>
                    (case FindMethodByName sd mth of
                       None \<Rightarrow> failWith (MethodNotIncluded svc mth) []
                     | Some mtd \<Rightarrow>
                         (case extIn of
                            Some e \<Rightarrow>
                              failWith (ExtensionResolveFailed (msgFqn (mtdInputType mtd)) e)
                                [OnResolveMethod mtd]
                          | None \<Rightarrow>
                              (case extOut of
                                 Some e \<Rightarrow>
                                   failWith (ExtensionResolveFailed (msgFqn (mtdOutputType mtd)) e)
                                     [OnResolveMethod mtd]
                               | None \<Rightarrow>
                                   (let req = NewMessage (mtdInputType mtd);
                                        evs = [OnResolveMethod mtd, OnSendHeaders md]
                                    in map_option (\<lambda>(out, evs'). (out, evs @ evs'))
                                         (if mtdClientStreaming mtd \<and> mtdServerStreaming mtd
                                          then invokeBidi stub mtd requestData req storedBeforeLoad
                                          else if mtdClientStreaming mtd
                                          then invokeClientStream stub mtd requestData req
                                          else if mtdServerStreaming mtd
                                          then invokeServerStream stub mtd requestData req
                                          else Some (invokeUnary stub mtd requestData req))))))
                | _ \<Rightarrow> failWith (ServiceNotExposed svc) []))))"

subsection \<open>Classification of the final error, as the specification words it\<close>

text \<open>
  The specification: an error that is a gRPC status, \<^verbatim>\<open>nil\<close> included, goes to
  \<^verbatim>\<open>OnReceiveTrailers\<close> and the invocation returns \<^verbatim>\<open>nil\<close>; any other error is returned,
  wrapped with the fully-qualified method name, and no trailers are emitted. \<open>pre\<close> is the
  trace up to that point. A receive loop ends at its \<open>k\<close>-th call when that call is the
  first to return an error; the loop reads \<^verbatim>\<open>io.EOF\<close> as \<^verbatim>\<open>nil\<close>. In a bidirectional call an
  error other than \<^verbatim>\<open>io.EOF\<close> found in the send task's cell replaces the receive error.
\<close>

definition specClassify :: "string \<Rightarrow> error option \<Rightarrow> md \<Rightarrow> event list \<Rightarrow> run" where
  "specClassify fqn err trailers pre =
     (case FromError err of
        Some stat \<Rightarrow> (Returns None, pre @ [OnReceiveTrailers stat trailers])
      | None \<Rightarrow> (Returns (Some (GrpcCallFailed fqn err)), pre))"

definition recvEndsAt :: "(nat \<Rightarrow> error + message) \<Rightarrow> nat \<Rightarrow> error \<Rightarrow> bool" where
  "recvEndsAt recvMsg k e \<longleftrightarrow> (\<forall>j<k. \<exists>resp. recvMsg j = Inr resp) \<and> recvMsg k = Inl e"

definition eofAsNil :: "error \<Rightarrow> error option" where
  "eofAsNil e = (if e = EOF then None else Some e)"

definition specSupersede :: "error option \<Rightarrow> error option \<Rightarrow> error option" where
  "specSupersede sendErr recvErr =
     (case sendErr of
        Some se \<Rightarrow> if se \<noteq> EOF then Some se else recvErr
      | None \<Rightarrow> recvErr)"

subsection \<open>The course of an upload loop\<close>

text \<open>
  The upload loops of the client-streaming and the bidirectional call start every iteration
  but the first on the message the supplier left, reset. \<open>reqAt\<close> is the message at the
  start of iteration \<open>i\<close>, and \<open>sentBefore\<close> says that in every iteration before the \<open>k\<close>-th
  the supplier gave a message and the stream took it.
\<close>

fun reqAt :: "supplier \<Rightarrow> message \<Rightarrow> nat \<Rightarrow> message" where
  "reqAt requestData req 0 = req"
| "reqAt requestData req (Suc i) = Reset (snd (requestData i (reqAt requestData req i)))"

definition sentBefore ::
  "supplier \<Rightarrow> (nat \<Rightarrow> message \<Rightarrow> error option) \<Rightarrow> message \<Rightarrow> nat \<Rightarrow> bool" where
  "sentBefore requestData sendMsg req k \<longleftrightarrow>
     (\<forall>j<k. fst (requestData j (reqAt requestData req j)) = None
            \<and> sendMsg j (snd (requestData j (reqAt requestData req j))) = None)"

section \<open>Concrete inputs\<close>

text \<open>A reflection client of a server that lacks the reflection service for most calls.\<close>

definition demoClient :: refl_client where
  "demoClient =
     \<lparr> rcListServices = ([], Some (StatusError Unimplemented ''no reflection'')),
       rcFileContainingSymbol = (\<lambda>n. Inl (StatusError Unimplemented ''no reflection'')),
       rcAllExtensionNumbersForType =
         (\<lambda>n. if n = ''a.M'' then Inr [1, 2] else Inl (Opaque ''connection reset'')),
       rcResolveExtension =
         (\<lambda>n i. if i = 1 then Inr (FieldDesc ''a.x'' 1)
                else Inl (StatusError Unimplemented ''no reflection'')) \<rparr>"

text \<open>A file with one service of two methods and one message, and a source over it.\<close>

definition demoMethod :: "string \<Rightarrow> bool \<Rightarrow> bool \<Rightarrow> method_desc" where
  "demoMethod name cs ss =
     \<lparr> mtdName = name, mtdFqn = ''pkg.Svc.'' @ name,
       mtdInputType = MessageDesc ''pkg.Req'', mtdOutputType = MessageDesc ''pkg.Resp'',
       mtdClientStreaming = cs, mtdServerStreaming = ss \<rparr>"

definition demoService :: service_desc where
  "demoService =
     \<lparr> svcFqn = ''pkg.Svc'',
       svcMethods = [demoMethod ''Echo'' False False, demoMethod ''Chat'' True True] \<rparr>"

definition demoFile :: file_desc where
  "demoFile =
     \<lparr> fdName = ''pkg.proto'',
       fdFindSymbol =
         (\<lambda>n. if n = ''pkg.Svc'' then Some (ServiceDescriptor demoService)
              else if n = ''pkg.Req'' then Some (MessageDescriptor (MessageDesc ''pkg.Req''))
              else None) \<rparr>"

definition demoSource :: descriptor_source where
  "demoSource =
     \<lparr> srcListServices = ([''pkg.Svc''], None),
       srcFindSymbol = fileSource_FindSymbol [demoFile],
       srcAllExtensionsForType = (\<lambda>n. ([], None)) \<rparr>"

text \<open>
  A server that echoes: one request \<open>hi\<close>, replies \<open>hi\<close>. The supplier gives the request
  once and then \<^verbatim>\<open>io.EOF\<close>, leaving the message alone. The server stream sends two replies,
  the client stream is refused by the server with \<^verbatim>\<open>ResourceExhausted\<close> when it is closed,
  the bidirectional stream sends one reply.
\<close>

definition demoRequest :: message where
  "demoRequest = Message ''pkg.Req'' [(1, ''hi'')]"

definition demoReply :: message where
  "demoReply = Message ''pkg.Resp'' [(1, ''hi'')]"

definition demoSupplier :: supplier where
  "demoSupplier i req = (if i = 0 then (None, demoRequest) else (Some EOF, req))"

definition demoServerStream :: server_stream where
  "demoServerStream =
     \<lparr> ssHeader = Inr [],
       ssRecvMsg = (\<lambda>i. if i < 2 then Inr demoReply else Inl EOF),
       ssTrailer = [] \<rparr>"

definition demoClientStream :: client_stream where
  "demoClientStream =
     \<lparr> csHeader = Inr [],
       csSendMsg = (\<lambda>i req. None),
       csCloseAndReceive = (None, Some (StatusError ResourceExhausted ''too many'')),
       csTrailer = [] \<rparr>"

definition demoBidiStream :: bidi_stream where
  "demoBidiStream =
     \<lparr> bsHeader = Inr [],
       bsSendMsg = (\<lambda>i req. None),
       bsCloseSend = None,
       bsRecvMsg = (\<lambda>i. if i < 1 then Inr demoReply else Inl EOF),
       bsTrailer = [] \<rparr>"

definition demoStub :: stub where
  "demoStub =
     \<lparr> stInvokeRpc =
         (\<lambda>md req. \<lparr> urResp = Some demoReply, urErr = None, urHeaders = [], urTrailers = [] \<rparr>),
       stInvokeRpcServerStream = (\<lambda>md req. (Some demoServerStream, None)),
       stInvokeRpcClientStream = (\<lambda>md. (Some demoClientStream, None)),
       stInvokeRpcBidiStream = (\<lambda>md. (Some demoBidiStream, None)) \<rparr>"

text \<open>
  A stub whose connection is refused: every call fails with an error that is no status.
  Its stream calls return a \<^verbatim>\<open>nil\<close> stream with the error.
\<close>

definition refusedStub :: stub where
  "refusedStub =
     \<lparr> stInvokeRpc =
         (\<lambda>md req. \<lparr> urResp = None, urErr = Some (Opaque ''connection refused''),
                      urHeaders = [], urTrailers = [] \<rparr>),
       stInvokeRpcServerStream = (\<lambda>md req. (None, Some (Opaque ''connection refused''))),
       stInvokeRpcClientStream = (\<lambda>md. (None, Some (Opaque ''connection refused''))),
       stInvokeRpcBidiStream = (\<lambda>md. (None, Some (Opaque ''connection refused''))) \<rparr>"

text \<open>A stub whose calls fail with a status, and whose streams are usable all the same.\<close>

definition statusStub :: stub where
  "statusStub =
     \<lparr> stInvokeRpc =
         (\<lambda>md req. \<lparr> urResp = None, urErr = Some (StatusError Unavailable ''down''),
                      urHeaders = [], urTrailers = [] \<rparr>),
       stInvokeRpcServerStream =
         (\<lambda>md req. (Some demoServerStream, Some (StatusError Unavailable ''down''))),
       stInvokeRpcClientStream =
         (\<lambda>md. (Some demoClientStream, Some (StatusError Unavailable ''down''))),
       stInvokeRpcBidiStream =
         (\<lambda>md. (Some demoBidiStream, Some (StatusError Unavailable ''down''))) \<rparr>"

text \<open>
  A stub whose server is down: every call fails with the status \<^verbatim>\<open>Unavailable\<close>, and, as
  a stub does when it cannot open a stream, its stream calls return a \<^verbatim>\<open>nil\<close> stream with
  the error.
\<close>

definition unavailableStub :: stub where
  "unavailableStub =
     \<lparr> stInvokeRpc =
         (\<lambda>md req. \<lparr> urResp = None, urErr = Some (StatusError Unavailable ''down''),
                      urHeaders = [], urTrailers = [] \<rparr>),
       stInvokeRpcServerStream = (\<lambda>md req. (None, Some (StatusError Unavailable ''down''))),
       stInvokeRpcClientStream = (\<lambda>md. (None, Some (StatusError Unavailable ''down''))),
       stInvokeRpcBidiStream = (\<lambda>md. (None, Some (StatusError Unavailable ''down''))) \<rparr>"

text \<open>A supplier that gives two messages, and one that fails at once.\<close>

definition twoMessages :: supplier where
  "twoMessages i req = (if i < 2 then (None, demoRequest) else (Some EOF, req))"

definition failingSupplier :: supplier where
  "failingSupplier i req = (Some (Opaque ''bad input''), req)"

text \<open>Headers with a repeated name, an empty string, a missing colon and a binary value.\<close>

definition demoHeaders :: "string list" where
  "demoHeaders = [''X-Foo: 1'', ''x-foo:2'', [], ''Bar'', ''X-Bin-bin: aGVsbG8='']"

section \<open>Properties\<close>

subsection \<open>Method names\<close>

lemma LastIndex_neg_iff: "LastIndex s c < 0 \<longleftrightarrow> c \<notin> set s"
  by (induction s) (auto simp: Let_def)

lemma LastIndex_split:
  "0 \<le> LastIndex s c \<Longrightarrow>
     s = take (nat (LastIndex s c)) s @ c # drop (nat (LastIndex s c + 1)) s \<and>
     c \<notin> set (drop (nat (LastIndex s c + 1)) s)"
proof (induction s)
  case Nil
  then show ?case by simp
next
  case (Cons x xs)
  show ?case
  proof (cases "0 \<le> LastIndex xs c")
    case True
    then have "nat (LastIndex xs c + 1) = Suc (nat (LastIndex xs c))" by simp
    moreover have "nat (LastIndex xs c + 1 + 1) = Suc (nat (LastIndex xs c + 1))"
      using True by simp
    ultimately show ?thesis using Cons.IH[OF True] True by (simp add: Let_def)
  next
    case False
    then have "c \<notin> set xs" using LastIndex_neg_iff[of xs c] by simp
    with False Cons.prems show ?thesis by (auto simp: Let_def split: if_splits)
  qed
qed

lemma parseSymbol_slash:
  assumes "CHR ''/'' \<in> set s"
  shows "\<exists>svc mth. parseSymbol s = (svc, mth) \<and> s = svc @ ''/'' @ mth \<and> CHR ''/'' \<notin> set mth"
proof -
  from assms have pos: "0 \<le> LastIndex s (CHR ''/'')"
    using LastIndex_neg_iff[of s "CHR ''/''"] by simp
  then have "parseSymbol s =
      (take (nat (LastIndex s (CHR ''/''))) s, drop (nat (LastIndex s (CHR ''/'') + 1)) s)"
    by (simp add: parseSymbol_def Let_def)
  with LastIndex_split[OF pos] show ?thesis by simp
qed

lemma parseSymbol_dot:
  assumes "CHR ''/'' \<notin> set s" and "CHR ''.'' \<in> set s"
  shows "\<exists>svc mth. parseSymbol s = (svc, mth) \<and> s = svc @ ''.'' @ mth \<and> CHR ''.'' \<notin> set mth"
proof -
  from assms(1) have neg: "LastIndex s (CHR ''/'') < 0"
    using LastIndex_neg_iff[of s "CHR ''/''"] by simp
  from assms(2) have pos: "0 \<le> LastIndex s (CHR ''.'')"
    using LastIndex_neg_iff[of s "CHR ''.''"] by simp
  from neg pos have "parseSymbol s =
      (take (nat (LastIndex s (CHR ''.''))) s, drop (nat (LastIndex s (CHR ''.'') + 1)) s)"
    by (simp add: parseSymbol_def Let_def)
  with LastIndex_split[OF pos] show ?thesis by simp
qed

lemma parseSymbol_none:
  assumes "CHR ''/'' \<notin> set s" and "CHR ''.'' \<notin> set s"
  shows "parseSymbol s = ([], [])"
  using assms LastIndex_neg_iff[of s "CHR ''/''"] LastIndex_neg_iff[of s "CHR ''.''"]
  by (simp add: parseSymbol_def Let_def)

lemma InvokeRPC_malformed:
  assumes "fst (parseSymbol s) = [] \<or> snd (parseSymbol s) = []"
  shows "InvokeRPC lower source extIn extOut stub sched s headers requestData
           = Some (Returns (Some (MalformedMethodName s)), [])"
  using assms by (cases "parseSymbol s") (auto simp: InvokeRPC_def failWith_def Let_def)

text \<open>
  Claim C4. The method name is split at its last \<open>/\<close> when it has one, otherwise at its last
  \<open>.\<close>: the service is what precedes the delimiter and the method what follows it, and the
  method holds no further delimiter. Without either delimiter both halves are empty.
  Whenever a half is empty, \<^verbatim>\<open>InvokeRPC\<close> returns the malformed-method-name error with an
  empty trace, so no handler event has fired. \<open>a.b.C/D\<close> and \<open>a.b.C.D\<close> both give
  \<open>(a.b.C, D)\<close>, and \<open>D\<close> is malformed.
\<close>

theorem parseSymbol_splits_at_last_delimiter:
  "(CHR ''/'' \<in> set s \<longrightarrow>
      (\<exists>svc mth. parseSymbol s = (svc, mth) \<and> s = svc @ ''/'' @ mth \<and> CHR ''/'' \<notin> set mth))
   \<and> (CHR ''/'' \<notin> set s \<and> CHR ''.'' \<in> set s \<longrightarrow>
      (\<exists>svc mth. parseSymbol s = (svc, mth) \<and> s = svc @ ''.'' @ mth \<and> CHR ''.'' \<notin> set mth))
   \<and> (CHR ''/'' \<notin> set s \<and> CHR ''.'' \<notin> set s \<longrightarrow> parseSymbol s = ([], []))
   \<and> (fst (parseSymbol s) = [] \<or> snd (parseSymbol s) = [] \<longrightarrow>
        InvokeRPC lower source extIn extOut stub sched s headers requestData
          = Some (Returns (Some (MalformedMethodName s)), []))
   \<and> parseSymbol ''a.b.C/D'' = (''a.b.C'', ''D'')
   \<and> parseSymbol ''a.b.C.D'' = (''a.b.C'', ''D'')
   \<and> InvokeRPC lower source extIn extOut stub sched ''D'' headers requestData
          = Some (Returns (Some (MalformedMethodName ''D'')), [])"
proof -
  have "parseSymbol ''a.b.C/D'' = (''a.b.C'', ''D'')"
    by (simp add: parseSymbol_def Let_def)
  moreover have "parseSymbol ''a.b.C.D'' = (''a.b.C'', ''D'')"
    by (simp add: parseSymbol_def Let_def)
  moreover have "parseSymbol ''D'' = ([], [])"
    by (simp add: parseSymbol_def Let_def)
  then have "InvokeRPC lower source extIn extOut stub sched ''D'' headers requestData
          = Some (Returns (Some (MalformedMethodName ''D'')), [])"
    using InvokeRPC_malformed[of "''D''"] by simp
  ultimately show ?thesis
    using parseSymbol_slash[of s] parseSymbol_dot[of s] parseSymbol_none[of s]
      InvokeRPC_malformed[of s lower source extIn extOut stub sched headers requestData]
    by blast
qed

theorem parseSymbol_witness:
  "parseSymbol ''pkg.Svc/Echo'' = (''pkg.Svc'', ''Echo'')
   \<and> parseSymbol ''pkg.Svc.Echo'' = (''pkg.Svc'', ''Echo'')
   \<and> parseSymbol ''Echo'' = ([], [])
   \<and> InvokeRPC id demoSource None None demoStub True ''pkg.Svc/'' [] demoSupplier
        = Some (Returns (Some (MalformedMethodName ''pkg.Svc/'')), [])"
proof -
  have h: "snd (parseSymbol ''pkg.Svc/'') = []"
    by (simp add: parseSymbol_def Let_def)
  note c1 = parseSymbol_splits_at_last_delimiter[of "''pkg.Svc/Echo''"]
  note c2 = parseSymbol_splits_at_last_delimiter[of "''pkg.Svc.Echo''"]
  note c3 = parseSymbol_splits_at_last_delimiter[of "''Echo''"]
  note c4 = parseSymbol_splits_at_last_delimiter[of "''pkg.Svc/''" id demoSource None None
      demoStub True "[]" demoSupplier]
  have "parseSymbol ''pkg.Svc/Echo'' = (''pkg.Svc'', ''Echo'')"
    using c1 by (simp add: parseSymbol_def Let_def)
  moreover have "parseSymbol ''pkg.Svc.Echo'' = (''pkg.Svc'', ''Echo'')"
    using c2 by (simp add: parseSymbol_def Let_def)
  moreover have "parseSymbol ''Echo'' = ([], [])"
    using c3 by simp
  moreover have "InvokeRPC id demoSource None None demoStub True ''pkg.Svc/'' [] demoSupplier
        = Some (Returns (Some (MalformedMethodName ''pkg.Svc/'')), [])"
    using c4 h by simp
  ultimately show ?thesis by blast
qed

subsection \<open>Classification of the final error\<close>

lemma recvLoop_from:
  assumes "i \<le> k"
    and "\<forall>j. i \<le> j \<longrightarrow> j < k \<longrightarrow> (\<exists>resp. recvMsg j = Inr resp)"
    and "recvMsg k = Inl e"
  shows "\<exists>evs'. recvLoop recvMsg i evs = Some (eofAsNil e, evs @ evs') \<and> \<not> list_ex isTrailers evs'"
  using assms
proof (induction "k - i" arbitrary: i evs)
  case 0
  then have "i = k" by simp
  with "0.prems"(3) have "recvLoop recvMsg i evs = Some (eofAsNil e, evs @ [])"
    by (subst recvLoop.simps) (simp add: eofAsNil_def)
  moreover have "\<not> list_ex isTrailers []" by simp
  ultimately show ?case by blast
next
  case (Suc n)
  then have lt: "i < k" by simp
  with Suc.prems(2) obtain resp where resp: "recvMsg i = Inr resp" by blast
  have "n = k - Suc i" using Suc.hyps(2) by simp
  moreover have "Suc i \<le> k" using lt by simp
  moreover have "\<forall>j. Suc i \<le> j \<longrightarrow> j < k \<longrightarrow> (\<exists>resp. recvMsg j = Inr resp)"
    using Suc.prems(2) by simp
  ultimately obtain evs' where
    rec: "recvLoop recvMsg (Suc i) (evs @ [OnReceiveResponse (Some resp)])
            = Some (eofAsNil e, (evs @ [OnReceiveResponse (Some resp)]) @ evs')"
    and nt: "\<not> list_ex isTrailers evs'"
    using Suc.hyps(1)[of "Suc i" "evs @ [OnReceiveResponse (Some resp)]"] Suc.prems(3) by blast
  have "recvLoop recvMsg i evs = Some (eofAsNil e, evs @ (OnReceiveResponse (Some resp) # evs'))"
    by (subst recvLoop.simps) (simp add: resp rec)
  moreover have "\<not> list_ex isTrailers (OnReceiveResponse (Some resp) # evs')"
    using nt by simp
  ultimately show ?case by blast
qed

lemma recvLoop_ends:
  assumes "recvEndsAt recvMsg k e"
  shows "\<exists>evs'. recvLoop recvMsg 0 evs = Some (eofAsNil e, evs @ evs') \<and> \<not> list_ex isTrailers evs'"
  using assms recvLoop_from[of 0 k recvMsg e evs] by (simp add: recvEndsAt_def)

lemma headerEvents_no_trailers: "\<not> list_ex isTrailers (headerEvents h)"
  by (cases h) (simp_all add: headerEvents_def)

lemma invokeUnary_classifies:
  assumes "readSingleRequest ''unary'' md requestData req = Inr r"
  shows "\<exists>pre. invokeUnary stub md requestData req
            = specClassify (mtdFqn md) (urErr (stInvokeRpc stub md r)) (urTrailers (stInvokeRpc stub md r)) pre
          \<and> \<not> list_ex isTrailers pre"
proof (cases "FromError (urErr (stInvokeRpc stub md r))")
  case None
  then have "invokeUnary stub md requestData req
      = specClassify (mtdFqn md) (urErr (stInvokeRpc stub md r)) (urTrailers (stInvokeRpc stub md r)) [StubInvokeRpc r]"
    using assms by (simp add: invokeUnary_def specClassify_def Let_def)
  moreover have "\<not> list_ex isTrailers [StubInvokeRpc r]" by simp
  ultimately show ?thesis by blast
next
  case (Some stat)
  let ?pre = "[StubInvokeRpc r, OnReceiveHeaders (urHeaders (stInvokeRpc stub md r))]
     @ (if Code stat = OK then [OnReceiveResponse (urResp (stInvokeRpc stub md r))] else [])"
  have "invokeUnary stub md requestData req
      = specClassify (mtdFqn md) (urErr (stInvokeRpc stub md r)) (urTrailers (stInvokeRpc stub md r)) ?pre"
    using assms Some by (simp add: invokeUnary_def specClassify_def Let_def)
  moreover have "\<not> list_ex isTrailers ?pre" by simp
  ultimately show ?thesis by blast
qed

lemma invokeServerStream_classifies:
  assumes req: "readSingleRequest ''server-streaming'' md requestData req = Inr r"
    and str: "stInvokeRpcServerStream stub md r = (Some s, openErr)"
    and ends: "openErr = None \<longrightarrow> recvEndsAt (ssRecvMsg s) k e"
  shows "\<exists>pre. invokeServerStream stub md requestData req
            = Some (specClassify (mtdFqn md) (if openErr \<noteq> None then openErr else eofAsNil e) (ssTrailer s) pre)
          \<and> \<not> list_ex isTrailers pre"
proof (cases openErr)
  case None
  let ?evs = "[StubInvokeRpcServerStream r] @ headerEvents (ssHeader s)"
  from None ends obtain evs' where
    loop: "recvLoop (ssRecvMsg s) 0 ?evs = Some (eofAsNil e, ?evs @ evs')"
    and nt: "\<not> list_ex isTrailers evs'"
    using recvLoop_ends[of "ssRecvMsg s" k e ?evs] by blast
  have "invokeServerStream stub md requestData req
      = Some (specClassify (mtdFqn md) (eofAsNil e) (ssTrailer s) (?evs @ evs'))"
    using req str None loop
    by (simp add: invokeServerStream_def specClassify_def Let_def split: option.splits)
  moreover have "\<not> list_ex isTrailers (?evs @ evs')"
    using nt headerEvents_no_trailers by simp
  ultimately show ?thesis using None by auto
next
  case (Some oe)
  let ?evs = "[StubInvokeRpcServerStream r] @ headerEvents (ssHeader s)"
  have "invokeServerStream stub md requestData req
      = Some (specClassify (mtdFqn md) openErr (ssTrailer s) ?evs)"
    using req str Some
    by (simp add: invokeServerStream_def specClassify_def Let_def split: option.splits)
  moreover have "\<not> list_ex isTrailers ?evs"
    using headerEvents_no_trailers by simp
  ultimately show ?thesis using Some by auto
qed

lemma invokeClientStream_classifies:
  assumes str: "stInvokeRpcClientStream stub md = (Some s, openErr)"
    and ends: "openErr = None \<longrightarrow> clientSendLoop requestData (Some s) 0 req = Some (Inr (resp, err))"
  shows "\<exists>pre. invokeClientStream stub md requestData req
            = Some (specClassify (mtdFqn md) (if openErr \<noteq> None then openErr else err) (csTrailer s) pre)
          \<and> \<not> list_ex isTrailers pre"
proof -
  define final where "final = (if openErr \<noteq> None then openErr else err)"
  define r where "r = (if openErr \<noteq> None then None else resp)"
  have loop: "(if openErr = None then clientSendLoop requestData (Some s) 0 req
               else Some (Inr (None, openErr))) = Some (Inr (r, final))"
    using ends by (auto simp: final_def r_def)
  show ?thesis
  proof (cases "FromError final")
    case None
    have "invokeClientStream stub md requestData req
        = Some (specClassify (mtdFqn md) final (csTrailer s) [StubInvokeRpcClientStream])"
      using str loop None by (simp add: invokeClientStream_def specClassify_def)
    moreover have "\<not> list_ex isTrailers [StubInvokeRpcClientStream]" by simp
    ultimately show ?thesis unfolding final_def by blast
  next
    case (Some stat)
    let ?pre = "[StubInvokeRpcClientStream] @ headerEvents (csHeader s)
        @ (if Code stat = OK then [OnReceiveResponse r] else [])"
    have "invokeClientStream stub md requestData req
        = Some (specClassify (mtdFqn md) final (csTrailer s) ?pre)"
      using str loop Some by (simp add: invokeClientStream_def specClassify_def)
    moreover have "\<not> list_ex isTrailers ?pre"
      using headerEvents_no_trailers by simp
    ultimately show ?thesis unfolding final_def by blast
  qed
qed

lemma invokeBidi_classifies:
  assumes str: "stInvokeRpcBidiStream stub md = (Some s, openErr)"
    and ends: "openErr = None \<longrightarrow>
        recvEndsAt (bsRecvMsg s) k e \<and> bidiSendLoop requestData s 0 req = Some stored"
  shows "\<exists>pre. invokeBidi stub md requestData req storedBeforeLoad
            = Some (specClassify (mtdFqn md)
                      (if openErr \<noteq> None then openErr
                       else specSupersede (if storedBeforeLoad then stored else None) (eofAsNil e))
                      (bsTrailer s) pre)
          \<and> \<not> list_ex isTrailers pre"
proof (cases openErr)
  case None
  let ?evs = "[StubInvokeRpcBidiStream] @ headerEvents (bsHeader s)"
  from None ends have task: "bidiSendLoop requestData s 0 req = Some stored" by simp
  from None ends obtain evs' where
    loop: "recvLoop (bsRecvMsg s) 0 ?evs = Some (eofAsNil e, ?evs @ evs')"
    and nt: "\<not> list_ex isTrailers evs'"
    using recvLoop_ends[of "bsRecvMsg s" k e ?evs] by blast
  have "invokeBidi stub md requestData req storedBeforeLoad
      = Some (specClassify (mtdFqn md)
                (specSupersede (if storedBeforeLoad then stored else None) (eofAsNil e))
                (bsTrailer s) (?evs @ evs'))"
    using str None loop task
    by (simp add: invokeBidi_def specClassify_def specSupersede_def Let_def split: option.split)
  moreover have "\<not> list_ex isTrailers (?evs @ evs')"
    using nt headerEvents_no_trailers by simp
  ultimately show ?thesis using None by auto
next
  case (Some oe)
  let ?evs = "[StubInvokeRpcBidiStream] @ headerEvents (bsHeader s)"
  have "invokeBidi stub md requestData req storedBeforeLoad
      = Some (specClassify (mtdFqn md) openErr (bsTrailer s) ?evs)"
    using str Some
    by (simp add: invokeBidi_def specClassify_def Let_def split: option.split)
  moreover have "\<not> list_ex isTrailers ?evs"
    using headerEvents_no_trailers by simp
  ultimately show ?thesis using Some by auto
qed

text \<open>
  Classification with a usable stream. Once the RPC is dispatched, and given that the stub
  handed out a usable stream,
  each of the four sub-protocols ends by classifying one error, the error resulting from
  the call: for a unary call the error of the call itself; for a server stream the error
  of opening the stream or else the error that ended the receive loop (\<^verbatim>\<open>io.EOF\<close> read as
  \<^verbatim>\<open>nil\<close>); for a client stream the error of opening the stream or else the error the upload
  loop ended with; for a bidirectional stream the error of opening the stream or else the
  receive error, replaced by the send task's error when that is in its cell. If that error
  converts to a status, the trailers event is fired with the status, as the last event and
  the only trailers event, and the invocation returns \<^verbatim>\<open>nil\<close>; if not, the invocation
  returns the error wrapped with the fully-qualified method name and the trace has no
  trailers event.
\<close>

theorem status_errors_reach_trailers:
  "(readSingleRequest ''unary'' md requestData req = Inr r \<longrightarrow>
      (\<exists>pre. invokeUnary stub md requestData req
                = specClassify (mtdFqn md) (urErr (stInvokeRpc stub md r))
                    (urTrailers (stInvokeRpc stub md r)) pre
             \<and> \<not> list_ex isTrailers pre))
   \<and> (readSingleRequest ''server-streaming'' md requestData req = Inr r
        \<and> stInvokeRpcServerStream stub md r = (Some ss, openErr)
        \<and> (openErr = None \<longrightarrow> recvEndsAt (ssRecvMsg ss) k e) \<longrightarrow>
      (\<exists>pre. invokeServerStream stub md requestData req
                = Some (specClassify (mtdFqn md) (if openErr \<noteq> None then openErr else eofAsNil e)
                          (ssTrailer ss) pre)
             \<and> \<not> list_ex isTrailers pre))
   \<and> (stInvokeRpcClientStream stub md = (Some cs, openErr)
        \<and> (openErr = None \<longrightarrow>
              clientSendLoop requestData (Some cs) 0 req = Some (Inr (resp, err))) \<longrightarrow>
      (\<exists>pre. invokeClientStream stub md requestData req
                = Some (specClassify (mtdFqn md) (if openErr \<noteq> None then openErr else err)
                          (csTrailer cs) pre)
             \<and> \<not> list_ex isTrailers pre))
   \<and> (stInvokeRpcBidiStream stub md = (Some bs, openErr)
        \<and> (openErr = None \<longrightarrow>
              recvEndsAt (bsRecvMsg bs) k e \<and> bidiSendLoop requestData bs 0 req = Some stored) \<longrightarrow>
      (\<exists>pre. invokeBidi stub md requestData req storedBeforeLoad
                = Some (specClassify (mtdFqn md)
                          (if openErr \<noteq> None then openErr
                           else specSupersede (if storedBeforeLoad then stored else None) (eofAsNil e))
                          (bsTrailer bs) pre)
             \<and> \<not> list_ex isTrailers pre))
   \<and> (\<forall>fqn err trailers pre.
         \<not> list_ex isTrailers pre \<longrightarrow>
         (case FromError err of
            Some stat \<Rightarrow>
              specClassify fqn err trailers pre = (Returns None, pre @ [OnReceiveTrailers stat trailers])
          | None \<Rightarrow>
              specClassify fqn err trailers pre = (Returns (Some (GrpcCallFailed fqn err)), pre)
              \<and> \<not> list_ex isTrailers (snd (specClassify fqn err trailers pre))))"
proof -
  have u: "readSingleRequest ''unary'' md requestData req = Inr r \<longrightarrow>
      (\<exists>pre. invokeUnary stub md requestData req
                = specClassify (mtdFqn md) (urErr (stInvokeRpc stub md r))
                    (urTrailers (stInvokeRpc stub md r)) pre
             \<and> \<not> list_ex isTrailers pre)"
    using invokeUnary_classifies by blast
  have s: "readSingleRequest ''server-streaming'' md requestData req = Inr r
        \<and> stInvokeRpcServerStream stub md r = (Some ss, openErr)
        \<and> (openErr = None \<longrightarrow> recvEndsAt (ssRecvMsg ss) k e) \<longrightarrow>
      (\<exists>pre. invokeServerStream stub md requestData req
                = Some (specClassify (mtdFqn md) (if openErr \<noteq> None then openErr else eofAsNil e)
                          (ssTrailer ss) pre)
             \<and> \<not> list_ex isTrailers pre)"
    using invokeServerStream_classifies by blast
  have c: "stInvokeRpcClientStream stub md = (Some cs, openErr)
        \<and> (openErr = None \<longrightarrow>
              clientSendLoop requestData (Some cs) 0 req = Some (Inr (resp, err))) \<longrightarrow>
      (\<exists>pre. invokeClientStream stub md requestData req
                = Some (specClassify (mtdFqn md) (if openErr \<noteq> None then openErr else err)
                          (csTrailer cs) pre)
             \<and> \<not> list_ex isTrailers pre)"
    using invokeClientStream_classifies by blast
  have b: "stInvokeRpcBidiStream stub md = (Some bs, openErr)
        \<and> (openErr = None \<longrightarrow>
              recvEndsAt (bsRecvMsg bs) k e \<and> bidiSendLoop requestData bs 0 req = Some stored) \<longrightarrow>
      (\<exists>pre. invokeBidi stub md requestData req storedBeforeLoad
                = Some (specClassify (mtdFqn md)
                          (if openErr \<noteq> None then openErr
                           else specSupersede (if storedBeforeLoad then stored else None) (eofAsNil e))
                          (bsTrailer bs) pre)
             \<and> \<not> list_ex isTrailers pre)"
    using invokeBidi_classifies by blast
  have k: "\<forall>fqn err trailers pre.
         \<not> list_ex isTrailers pre \<longrightarrow>
         (case FromError err of
            Some stat \<Rightarrow>
              specClassify fqn err trailers pre = (Returns None, pre @ [OnReceiveTrailers stat trailers])
          | None \<Rightarrow>
              specClassify fqn err trailers pre = (Returns (Some (GrpcCallFailed fqn err)), pre)
              \<and> \<not> list_ex isTrailers (snd (specClassify fqn err trailers pre)))"
    by (simp add: specClassify_def split: option.splits)
  from u s c b k show ?thesis by blast
qed

lemma demo_single_request:
  "readSingleRequest kind md demoSupplier req = Inr demoRequest"
  by (simp add: readSingleRequest_def demoSupplier_def)

lemma demo_server_recv: "recvEndsAt (ssRecvMsg demoServerStream) 2 EOF"
  by (simp add: recvEndsAt_def demoServerStream_def)

lemma demo_bidi_recv: "recvEndsAt (bsRecvMsg demoBidiStream) 1 EOF"
  by (simp add: recvEndsAt_def demoBidiStream_def)

lemma demo_client_upload:
  "clientSendLoop demoSupplier (Some demoClientStream) 0 req
     = Some (Inr (None, Some (StatusError ResourceExhausted ''too many'')))"
  apply (subst clientSendLoop.simps)
  apply (simp add: demoSupplier_def demoClientStream_def)
  apply (subst clientSendLoop.simps)
  apply (simp add: demoSupplier_def demoClientStream_def)
  done

lemma demo_bidi_upload: "bidiSendLoop demoSupplier demoBidiStream 0 req = Some None"
  apply (subst bidiSendLoop.simps)
  apply (simp add: demoSupplier_def demoBidiStream_def)
  apply (subst bidiSendLoop.simps)
  apply (simp add: demoSupplier_def demoBidiStream_def)
  done

lemma failing_bidi_upload:
  "bidiSendLoop failingSupplier demoBidiStream 0 req
     = Some (Some (RequestDataError (Opaque ''bad input'')))"
  by (subst bidiSendLoop.simps) (simp add: failingSupplier_def)

theorem status_errors_reach_trailers_witness:
  "readSingleRequest ''unary'' (demoMethod ''Echo'' False False) demoSupplier
       (NewMessage (MessageDesc ''pkg.Req'')) = Inr demoRequest
   \<and> (\<exists>pre. invokeUnary demoStub (demoMethod ''Echo'' False False) demoSupplier
               (NewMessage (MessageDesc ''pkg.Req''))
             = (Returns None, pre @ [OnReceiveTrailers (Status OK []) []])
          \<and> \<not> list_ex isTrailers pre)
   \<and> (\<exists>pre. invokeUnary refusedStub (demoMethod ''Echo'' False False) demoSupplier
               (NewMessage (MessageDesc ''pkg.Req''))
             = (Returns (Some (GrpcCallFailed ''pkg.Svc.Echo'' (Some (Opaque ''connection refused'')))), pre)
          \<and> \<not> list_ex isTrailers pre)
   \<and> recvEndsAt (ssRecvMsg demoServerStream) 2 EOF
   \<and> (\<exists>pre. invokeServerStream demoStub (demoMethod ''List'' False True) demoSupplier
               (NewMessage (MessageDesc ''pkg.Req''))
             = Some (Returns None, pre @ [OnReceiveTrailers (Status OK []) []])
          \<and> \<not> list_ex isTrailers pre)
   \<and> (\<exists>pre. invokeClientStream demoStub (demoMethod ''Upload'' True False) demoSupplier
               (NewMessage (MessageDesc ''pkg.Req''))
             = Some (Returns None,
                     pre @ [OnReceiveTrailers (Status ResourceExhausted ''too many'') []])
          \<and> \<not> list_ex isTrailers pre)
   \<and> (\<exists>pre. invokeBidi demoStub (demoMethod ''Chat'' True True) failingSupplier
               (NewMessage (MessageDesc ''pkg.Req'')) True
             = Some (Returns (Some (GrpcCallFailed ''pkg.Svc.Chat''
                        (Some (RequestDataError (Opaque ''bad input''))))), pre)
          \<and> \<not> list_ex isTrailers pre)"
proof -
  let ?req = "NewMessage (MessageDesc ''pkg.Req'')"
  note u1 = status_errors_reach_trailers[of "demoMethod ''Echo'' False False" demoSupplier ?req
      demoRequest demoStub demoServerStream None 2 EOF demoClientStream None None demoBidiStream
      None True]
  note u2 = status_errors_reach_trailers[of "demoMethod ''Echo'' False False" demoSupplier ?req
      demoRequest refusedStub demoServerStream None 2 EOF demoClientStream None None demoBidiStream
      None True]
  note s1 = status_errors_reach_trailers[of "demoMethod ''List'' False True" demoSupplier ?req
      demoRequest demoStub demoServerStream None 2 EOF demoClientStream None None demoBidiStream
      None True]
  note c1 = status_errors_reach_trailers[of "demoMethod ''Upload'' True False" demoSupplier ?req
      demoRequest demoStub demoServerStream None 2 EOF demoClientStream None
      "Some (StatusError ResourceExhausted ''too many'')" demoBidiStream
      None True]
  note b1 = status_errors_reach_trailers[of "demoMethod ''Chat'' True True" failingSupplier ?req
      demoRequest demoStub demoServerStream None 1 EOF demoClientStream None None demoBidiStream
      "Some (RequestDataError (Opaque ''bad input''))" True]
  have a: "readSingleRequest ''unary'' (demoMethod ''Echo'' False False) demoSupplier ?req
      = Inr demoRequest"
    by (rule demo_single_request)
  have b: "\<exists>pre. invokeUnary demoStub (demoMethod ''Echo'' False False) demoSupplier ?req
             = (Returns None, pre @ [OnReceiveTrailers (Status OK []) []])
          \<and> \<not> list_ex isTrailers pre"
    using u1 a by (simp add: demoStub_def specClassify_def)
  have c: "\<exists>pre. invokeUnary refusedStub (demoMethod ''Echo'' False False) demoSupplier ?req
             = (Returns (Some (GrpcCallFailed ''pkg.Svc.Echo'' (Some (Opaque ''connection refused'')))), pre)
          \<and> \<not> list_ex isTrailers pre"
    using u2 a by (simp add: refusedStub_def specClassify_def demoMethod_def)
  have d: "\<exists>pre. invokeServerStream demoStub (demoMethod ''List'' False True) demoSupplier ?req
             = Some (Returns None, pre @ [OnReceiveTrailers (Status OK []) []])
          \<and> \<not> list_ex isTrailers pre"
    using s1 demo_single_request[of "''server-streaming''" "demoMethod ''List'' False True" ?req]
      demo_server_recv
    by (simp add: demoStub_def specClassify_def eofAsNil_def demoServerStream_def)
  have e: "\<exists>pre. invokeClientStream demoStub (demoMethod ''Upload'' True False) demoSupplier ?req
             = Some (Returns None,
                     pre @ [OnReceiveTrailers (Status ResourceExhausted ''too many'') []])
          \<and> \<not> list_ex isTrailers pre"
    using c1 demo_client_upload[of ?req]
    by (simp add: demoStub_def specClassify_def demoClientStream_def)
  have f: "\<exists>pre. invokeBidi demoStub (demoMethod ''Chat'' True True) failingSupplier ?req True
             = Some (Returns (Some (GrpcCallFailed ''pkg.Svc.Chat''
                        (Some (RequestDataError (Opaque ''bad input''))))), pre)
          \<and> \<not> list_ex isTrailers pre"
    using b1 demo_bidi_recv failing_bidi_upload[of ?req]
    by (simp add: demoStub_def specClassify_def specSupersede_def demoMethod_def demoBidiStream_def)
  from a b c demo_server_recv d e f show ?thesis by blast
qed

text \<open>
  Claim C1. The classification does not cover every invocation: the stream is used before
  the error of opening it is classified. In \<^verbatim>\<open>invokeServerStream\<close> and \<^verbatim>\<open>invokeBidi\<close> the
  receive loop is skipped when opening the stream failed, so that the error reaches
  \<^verbatim>\<open>status.FromError\<close>, but \<^verbatim>\<open>str.Header()\<close> is called first, with no check of that error;
  in \<^verbatim>\<open>invokeClientStream\<close> the error is classified first and \<^verbatim>\<open>str.Header()\<close> is called
  when it is a status. A stub that cannot open a stream returns \<^verbatim>\<open>nil\<close> with the error.
  So with a server that is down (the error converts to the status \<^verbatim>\<open>Unavailable\<close>) the
  three streaming invocations panic: no trailers event is fired and nothing is returned.
  With a refused connection (the error converts to no status) the server-streaming and the
  bidirectional invocation panic as well, where the claim has the wrapped error returned.
\<close>

theorem nil_stream_panics_before_classification:
  "FromError (Some (StatusError Unavailable ''down'')) = Some (Status Unavailable ''down'')
   \<and> invokeServerStream unavailableStub (demoMethod ''List'' False True) demoSupplier
        (NewMessage (MessageDesc ''pkg.Req''))
       = Some (Panics, [StubInvokeRpcServerStream demoRequest])
   \<and> invokeClientStream unavailableStub (demoMethod ''Upload'' True False) demoSupplier
        (NewMessage (MessageDesc ''pkg.Req''))
       = Some (Panics, [StubInvokeRpcClientStream])
   \<and> invokeBidi unavailableStub (demoMethod ''Chat'' True True) demoSupplier
        (NewMessage (MessageDesc ''pkg.Req'')) True
       = Some (Panics, [StubInvokeRpcBidiStream])
   \<and> FromError (Some (Opaque ''connection refused'')) = None
   \<and> invokeServerStream refusedStub (demoMethod ''List'' False True) demoSupplier
        (NewMessage (MessageDesc ''pkg.Req''))
       = Some (Panics, [StubInvokeRpcServerStream demoRequest])
   \<and> invokeBidi refusedStub (demoMethod ''Chat'' True True) demoSupplier
        (NewMessage (MessageDesc ''pkg.Req'')) True
       = Some (Panics, [StubInvokeRpcBidiStream])"
proof -
  let ?req = "NewMessage (MessageDesc ''pkg.Req'')"
  have rq: "readSingleRequest ''server-streaming'' (demoMethod ''List'' False True) demoSupplier ?req
      = Inr demoRequest"
    by (rule demo_single_request)
  have s: "invokeServerStream unavailableStub (demoMethod ''List'' False True) demoSupplier ?req
       = Some (Panics, [StubInvokeRpcServerStream demoRequest])"
    using rq by (simp add: invokeServerStream_def unavailableStub_def)
  have c: "invokeClientStream unavailableStub (demoMethod ''Upload'' True False) demoSupplier ?req
       = Some (Panics, [StubInvokeRpcClientStream])"
    by (simp add: invokeClientStream_def unavailableStub_def)
  have b: "invokeBidi unavailableStub (demoMethod ''Chat'' True True) demoSupplier ?req True
       = Some (Panics, [StubInvokeRpcBidiStream])"
    by (simp add: invokeBidi_def unavailableStub_def)
  have s': "invokeServerStream refusedStub (demoMethod ''List'' False True) demoSupplier ?req
       = Some (Panics, [StubInvokeRpcServerStream demoRequest])"
    using rq by (simp add: invokeServerStream_def refusedStub_def)
  have b': "invokeBidi refusedStub (demoMethod ''Chat'' True True) demoSupplier ?req True
       = Some (Panics, [StubInvokeRpcBidiStream])"
    by (simp add: invokeBidi_def refusedStub_def)
  from s c b s' b' show ?thesis by simp
qed

subsection \<open>When the upload loops end\<close>

lemma clientSendLoop_skip:
  assumes "sentBefore requestData (csSendMsg s) req k" and "i \<le> k"
  shows "clientSendLoop requestData (Some s) i (reqAt requestData req i)
           = clientSendLoop requestData (Some s) k (reqAt requestData req k)"
  using assms(2)
proof (induction "k - i" arbitrary: i)
  case 0
  then show ?case by simp
next
  case (Suc n)
  then have lt: "i < k" by simp
  obtain r where r: "requestData i (reqAt requestData req i) = (None, r)"
    using assms(1) lt by (cases "requestData i (reqAt requestData req i)") (auto simp: sentBefore_def)
  have send: "csSendMsg s i r = None"
    using assms(1) lt r by (auto simp: sentBefore_def)
  have next_req: "reqAt requestData req (Suc i) = Reset r" by (simp add: r)
  have "clientSendLoop requestData (Some s) i (reqAt requestData req i)
      = clientSendLoop requestData (Some s) (Suc i) (reqAt requestData req (Suc i))"
    by (subst clientSendLoop.simps) (simp add: r send next_req)
  moreover have "clientSendLoop requestData (Some s) (Suc i) (reqAt requestData req (Suc i))
      = clientSendLoop requestData (Some s) k (reqAt requestData req k)"
    using Suc.hyps(1)[of "Suc i"] Suc.hyps(2) lt by simp
  ultimately show ?case by simp
qed

lemma clientSendLoop_ends:
  assumes "sentBefore requestData (csSendMsg s) req k"
    and "requestData k (reqAt requestData req k) = (err, r)"
  shows "err = Some EOF \<Longrightarrow>
           clientSendLoop requestData (Some s) 0 req = Some (Inr (csCloseAndReceive s))"
    and "err = Some e \<Longrightarrow> e \<noteq> EOF \<Longrightarrow>
           clientSendLoop requestData (Some s) 0 req = Some (Inl (Returns (Some (RequestDataError e))))"
    and "err = None \<Longrightarrow> csSendMsg s k r = Some EOF \<Longrightarrow>
           clientSendLoop requestData (Some s) 0 req = Some (Inr (csCloseAndReceive s))"
    and "err = None \<Longrightarrow> csSendMsg s k r = Some e \<Longrightarrow> e \<noteq> EOF \<Longrightarrow>
           clientSendLoop requestData (Some s) 0 req = Some (Inr (None, Some e))"
proof -
  have skip: "clientSendLoop requestData (Some s) 0 req
      = clientSendLoop requestData (Some s) k (reqAt requestData req k)"
    using clientSendLoop_skip[OF assms(1), of 0] by simp
  show "err = Some EOF \<Longrightarrow>
           clientSendLoop requestData (Some s) 0 req = Some (Inr (csCloseAndReceive s))"
    unfolding skip by (subst clientSendLoop.simps) (simp add: assms(2))
  show "err = Some e \<Longrightarrow> e \<noteq> EOF \<Longrightarrow>
           clientSendLoop requestData (Some s) 0 req = Some (Inl (Returns (Some (RequestDataError e))))"
    unfolding skip by (subst clientSendLoop.simps) (simp add: assms(2))
  show "err = None \<Longrightarrow> csSendMsg s k r = Some EOF \<Longrightarrow>
           clientSendLoop requestData (Some s) 0 req = Some (Inr (csCloseAndReceive s))"
    unfolding skip by (subst clientSendLoop.simps) (simp add: assms(2))
  show "err = None \<Longrightarrow> csSendMsg s k r = Some e \<Longrightarrow> e \<noteq> EOF \<Longrightarrow>
           clientSendLoop requestData (Some s) 0 req = Some (Inr (None, Some e))"
    unfolding skip by (subst clientSendLoop.simps) (simp add: assms(2))
qed

lemma bidiSendLoop_skip:
  assumes "sentBefore requestData (bsSendMsg s) req k" and "i \<le> k"
  shows "bidiSendLoop requestData s i (reqAt requestData req i)
           = bidiSendLoop requestData s k (reqAt requestData req k)"
  using assms(2)
proof (induction "k - i" arbitrary: i)
  case 0
  then show ?case by simp
next
  case (Suc n)
  then have lt: "i < k" by simp
  obtain r where r: "requestData i (reqAt requestData req i) = (None, r)"
    using assms(1) lt by (cases "requestData i (reqAt requestData req i)") (auto simp: sentBefore_def)
  have send: "bsSendMsg s i r = None"
    using assms(1) lt r by (auto simp: sentBefore_def)
  have next_req: "reqAt requestData req (Suc i) = Reset r" by (simp add: r)
  have "bidiSendLoop requestData s i (reqAt requestData req i)
      = bidiSendLoop requestData s (Suc i) (reqAt requestData req (Suc i))"
    by (subst bidiSendLoop.simps) (simp add: r send next_req)
  moreover have "bidiSendLoop requestData s (Suc i) (reqAt requestData req (Suc i))
      = bidiSendLoop requestData s k (reqAt requestData req k)"
    using Suc.hyps(1)[of "Suc i"] Suc.hyps(2) lt by simp
  ultimately show ?case by simp
qed

lemma bidiSendLoop_ends:
  assumes "sentBefore requestData (bsSendMsg s) req k"
    and "requestData k (reqAt requestData req k) = (err, r)"
  shows "err = Some EOF \<Longrightarrow> bidiSendLoop requestData s 0 req = Some (bsCloseSend s)"
    and "err = Some e \<Longrightarrow> e \<noteq> EOF \<Longrightarrow>
           bidiSendLoop requestData s 0 req = Some (Some (RequestDataError e))"
    and "err = None \<Longrightarrow> bsSendMsg s k r = Some e \<Longrightarrow>
           bidiSendLoop requestData s 0 req = Some (Some e)"
proof -
  have skip: "bidiSendLoop requestData s 0 req
      = bidiSendLoop requestData s k (reqAt requestData req k)"
    using bidiSendLoop_skip[OF assms(1), of 0] by simp
  show "err = Some EOF \<Longrightarrow> bidiSendLoop requestData s 0 req = Some (bsCloseSend s)"
    unfolding skip by (subst bidiSendLoop.simps) (simp add: assms(2))
  show "err = Some e \<Longrightarrow> e \<noteq> EOF \<Longrightarrow>
           bidiSendLoop requestData s 0 req = Some (Some (RequestDataError e))"
    unfolding skip by (subst bidiSendLoop.simps) (simp add: assms(2))
  show "err = None \<Longrightarrow> bsSendMsg s k r = Some e \<Longrightarrow>
           bidiSendLoop requestData s 0 req = Some (Some e)"
    unfolding skip by (subst bidiSendLoop.simps) (simp add: assms(2))
qed

subsection \<open>The send task of a bidirectional call\<close>

lemma invokeBidi_returns_after_send_task:
  assumes "stInvokeRpcBidiStream stub md = (Some bs, None)"
    and "invokeBidi stub md requestData req storedBeforeLoad = Some run"
  shows "\<exists>stored. bidiSendLoop requestData bs 0 req = Some stored"
proof (cases "bidiSendLoop requestData bs 0 req")
  case None
  with assms(1) have "invokeBidi stub md requestData req storedBeforeLoad = None"
    by (simp add: invokeBidi_def Let_def split: option.split prod.split)
  with assms(2) show ?thesis by simp
next
  case (Some stored)
  then show ?thesis by blast
qed

text \<open>
  Claim C2, as amended. The engine does not wait for the send task before it classifies.
  It joins the send task before it returns: an invocation whose stream opened returns only
  if the send task has ended. When the receive loop has ended, the engine reads the send
  task's cell once. If the send task's error is in the cell by then, an error other than
  \<^verbatim>\<open>io.EOF\<close> replaces the receive error, \<^verbatim>\<open>nil\<close> or not, in the classification, and
  \<^verbatim>\<open>io.EOF\<close> or no error leaves the receive error in place; if the error is stored later,
  the receive error alone is classified.
\<close>

theorem bidi_send_error_read_once:
  "(stInvokeRpcBidiStream stub md = (Some bs, None)
      \<and> invokeBidi stub md requestData req storedBeforeLoad = Some run \<longrightarrow>
    (\<exists>stored. bidiSendLoop requestData bs 0 req = Some stored))
   \<and> (stInvokeRpcBidiStream stub md = (Some bs, None)
      \<and> recvEndsAt (bsRecvMsg bs) k e
      \<and> bidiSendLoop requestData bs 0 req = Some stored \<longrightarrow>
    (\<exists>pre. invokeBidi stub md requestData req True
              = Some (specClassify (mtdFqn md) (specSupersede stored (eofAsNil e)) (bsTrailer bs) pre)
           \<and> \<not> list_ex isTrailers pre)
    \<and> (\<exists>pre. invokeBidi stub md requestData req False
              = Some (specClassify (mtdFqn md) (eofAsNil e) (bsTrailer bs) pre)
           \<and> \<not> list_ex isTrailers pre))
   \<and> (\<forall>se recvErr. se \<noteq> EOF \<longrightarrow> specSupersede (Some se) recvErr = Some se)
   \<and> (\<forall>recvErr. specSupersede (Some EOF) recvErr = recvErr \<and> specSupersede None recvErr = recvErr)"
proof -
  have join: "stInvokeRpcBidiStream stub md = (Some bs, None)
      \<and> invokeBidi stub md requestData req storedBeforeLoad = Some run \<longrightarrow>
    (\<exists>stored. bidiSendLoop requestData bs 0 req = Some stored)"
    using invokeBidi_returns_after_send_task by blast
  have seen: "\<exists>pre. invokeBidi stub md requestData req True
              = Some (specClassify (mtdFqn md) (specSupersede stored (eofAsNil e)) (bsTrailer bs) pre)
           \<and> \<not> list_ex isTrailers pre"
    if "stInvokeRpcBidiStream stub md = (Some bs, None)" "recvEndsAt (bsRecvMsg bs) k e"
      "bidiSendLoop requestData bs 0 req = Some stored"
    using invokeBidi_classifies[of stub md bs None k e requestData req stored True] that by simp
  have unseen: "\<exists>pre. invokeBidi stub md requestData req False
              = Some (specClassify (mtdFqn md) (eofAsNil e) (bsTrailer bs) pre)
           \<and> \<not> list_ex isTrailers pre"
    if "stInvokeRpcBidiStream stub md = (Some bs, None)" "recvEndsAt (bsRecvMsg bs) k e"
      "bidiSendLoop requestData bs 0 req = Some stored"
    using invokeBidi_classifies[of stub md bs None k e requestData req stored False] that
    by (simp add: specSupersede_def)
  have sup1: "\<forall>se recvErr. se \<noteq> EOF \<longrightarrow> specSupersede (Some se) recvErr = Some se"
    by (simp add: specSupersede_def)
  have sup2: "\<forall>recvErr. specSupersede (Some EOF) recvErr = recvErr \<and> specSupersede None recvErr = recvErr"
    by (simp add: specSupersede_def)
  from join seen unseen sup1 sup2 show ?thesis by blast
qed

lemma demo_bidi_recvLoop:
  "recvLoop (bsRecvMsg demoBidiStream) 0 evs = Some (None, evs @ [OnReceiveResponse (Some demoReply)])"
  apply (subst recvLoop.simps)
  apply (simp add: demoBidiStream_def)
  apply (subst recvLoop.simps)
  apply (simp add: demoBidiStream_def)
  done

text \<open>
  Claim C2, as stated, fails. The supplier fails at its first call, so the send task ends
  with an error that is not \<^verbatim>\<open>io.EOF\<close>; the server sends one reply and ends the stream, so
  the receive error is \<^verbatim>\<open>nil\<close>. When the send task stores its error after the engine has
  read the cell, the engine classifies \<^verbatim>\<open>nil\<close>: it fires the trailers event with status OK
  and returns \<^verbatim>\<open>nil\<close>.
\<close>

theorem bidi_classifies_before_join_counterexample:
  "bidiSendLoop failingSupplier demoBidiStream 0 (NewMessage (MessageDesc ''pkg.Req''))
       = Some (Some (RequestDataError (Opaque ''bad input'')))
   \<and> RequestDataError (Opaque ''bad input'') \<noteq> EOF
   \<and> recvLoop (bsRecvMsg demoBidiStream) 0 [] = Some (None, [OnReceiveResponse (Some demoReply)])
   \<and> invokeBidi demoStub (demoMethod ''Chat'' True True) failingSupplier
         (NewMessage (MessageDesc ''pkg.Req'')) False
       = Some (Returns None,
               [StubInvokeRpcBidiStream, OnReceiveHeaders [],
                OnReceiveResponse (Some demoReply), OnReceiveTrailers (Status OK []) []])"
proof -
  have "invokeBidi demoStub (demoMethod ''Chat'' True True) failingSupplier
         (NewMessage (MessageDesc ''pkg.Req'')) False
       = Some (Returns None,
               [StubInvokeRpcBidiStream, OnReceiveHeaders [],
                OnReceiveResponse (Some demoReply), OnReceiveTrailers (Status OK []) []])"
    using failing_bidi_upload[of "NewMessage (MessageDesc ''pkg.Req'')"]
      demo_bidi_recvLoop[of "[StubInvokeRpcBidiStream, OnReceiveHeaders []]"]
    by (simp add: invokeBidi_def demoStub_def Let_def headerEvents_def)
       (simp add: demoBidiStream_def)
  then show ?thesis
    using failing_bidi_upload demo_bidi_recvLoop[of "[]"] by simp
qed

theorem bidi_send_error_read_once_witness:
  "stInvokeRpcBidiStream demoStub (demoMethod ''Chat'' True True) = (Some demoBidiStream, None)
   \<and> recvEndsAt (bsRecvMsg demoBidiStream) 1 EOF
   \<and> bidiSendLoop failingSupplier demoBidiStream 0 (NewMessage (MessageDesc ''pkg.Req''))
       = Some (Some (RequestDataError (Opaque ''bad input'')))
   \<and> (\<exists>pre. invokeBidi demoStub (demoMethod ''Chat'' True True) failingSupplier
               (NewMessage (MessageDesc ''pkg.Req'')) True
             = Some (Returns (Some (GrpcCallFailed ''pkg.Svc.Chat''
                        (Some (RequestDataError (Opaque ''bad input''))))), pre)
          \<and> \<not> list_ex isTrailers pre)
   \<and> (\<exists>pre. invokeBidi demoStub (demoMethod ''Chat'' True True) failingSupplier
               (NewMessage (MessageDesc ''pkg.Req'')) False
             = Some (Returns None, pre @ [OnReceiveTrailers (Status OK []) []])
          \<and> \<not> list_ex isTrailers pre)"
proof -
  let ?req = "NewMessage (MessageDesc ''pkg.Req'')"
  let ?md = "demoMethod ''Chat'' True True"
  have str: "stInvokeRpcBidiStream demoStub ?md = (Some demoBidiStream, None)"
    by (simp add: demoStub_def)
  note t = bidi_send_error_read_once[of demoStub ?md demoBidiStream failingSupplier ?req True
      "(Returns None, [])" 1 EOF "Some (RequestDataError (Opaque ''bad input''))"]
  have seen: "\<exists>pre. invokeBidi demoStub ?md failingSupplier ?req True
             = Some (Returns (Some (GrpcCallFailed ''pkg.Svc.Chat''
                        (Some (RequestDataError (Opaque ''bad input''))))), pre)
          \<and> \<not> list_ex isTrailers pre"
    using t str demo_bidi_recv failing_bidi_upload[of ?req]
    by (simp add: specClassify_def specSupersede_def demoMethod_def)
  have unseen: "\<exists>pre. invokeBidi demoStub ?md failingSupplier ?req False
             = Some (Returns None, pre @ [OnReceiveTrailers (Status OK []) []])
          \<and> \<not> list_ex isTrailers pre"
    using t str demo_bidi_recv failing_bidi_upload[of ?req]
    by (simp add: specClassify_def eofAsNil_def demoBidiStream_def)
  from str demo_bidi_recv failing_bidi_upload[of ?req] seen unseen show ?thesis by blast
qed

subsection \<open>Request supply and stream handles\<close>

lemma readSingleRequest_two:
  assumes "requestData 0 req = (None, r1)" and "requestData 1 r1 = (None, r2)"
  shows "readSingleRequest kind md requestData req = Inl (TooManyRequestMessages (mtdFqn md) kind)"
  using assms by (simp add: readSingleRequest_def)

lemma readSingleRequest_EOF:
  assumes "requestData 0 req = (Some EOF, req)"
  shows "readSingleRequest kind md requestData req = Inr req"
  using assms by (simp add: readSingleRequest_def)

lemma invokeUnary_dispatches:
  assumes "readSingleRequest ''unary'' md requestData req = Inr r"
  shows "\<exists>out evs. invokeUnary stub md requestData req = (out, StubInvokeRpc r # evs)"
  using assms by (simp add: invokeUnary_def Let_def split: option.split)

lemma recvLoop_extends:
  assumes "recvLoop recvMsg i evs = Some r"
  shows "\<exists>evs'. snd r = evs @ evs'"
  using assms
proof (induction rule: recvLoop.raw_induct[rotated, consumes 1, case_names step])
  case (step recvLoop' recvMsg i evs r)
  show ?case
  proof (cases "recvMsg i")
    case (Inl err)
    with step(2) show ?thesis by auto
  next
    case (Inr resp)
    with step(2) have "recvLoop' recvMsg (Suc i) (evs @ [OnReceiveResponse (Some resp)]) = Some r"
      by simp
    from step(1)[OF this] show ?thesis by auto
  qed
qed

lemma invokeServerStream_dispatches:
  assumes "readSingleRequest ''server-streaming'' md requestData req = Inr r"
    and "invokeServerStream stub md requestData req = Some (out, evs)"
  shows "\<exists>evs'. evs = StubInvokeRpcServerStream r # evs'"
proof (cases "stInvokeRpcServerStream stub md r")
  case (Pair str openErr)
  show ?thesis
  proof (cases str)
    case None
    with assms Pair show ?thesis by (auto simp: invokeServerStream_def)
  next
    case (Some s)
    let ?evs = "[StubInvokeRpcServerStream r] @ headerEvents (ssHeader s)"
    show ?thesis
    proof (cases openErr)
      case None
      from assms Pair Some None obtain err evs2 where
        loop: "recvLoop (ssRecvMsg s) 0 ?evs = Some (err, evs2)"
        and res: "evs = evs2 \<or> (\<exists>t. evs = evs2 @ [t])"
        by (auto simp: invokeServerStream_def Let_def split: option.splits)
      from recvLoop_extends[OF loop] obtain evs' where "evs2 = ?evs @ evs'" by auto
      with res show ?thesis by auto
    next
      case (Some oe)
      with assms Pair \<open>str = Some s\<close> show ?thesis
        by (auto simp: invokeServerStream_def Let_def split: option.splits)
    qed
  qed
qed

lemma invokeServerStream_sends:
  assumes req: "readSingleRequest ''server-streaming'' md requestData req = Inr r"
    and str: "stInvokeRpcServerStream stub md r = (Some ss, openErr)"
    and ends: "openErr = None \<longrightarrow> recvEndsAt (ssRecvMsg ss) k e"
  shows "\<exists>out evs. invokeServerStream stub md requestData req
           = Some (out, StubInvokeRpcServerStream r # evs) \<and> out \<noteq> Panics"
proof -
  from invokeServerStream_classifies[OF req str ends]
  obtain run where run: "invokeServerStream stub md requestData req = Some run" by blast
  obtain out evs where oe: "run = (out, evs)" by (cases run)
  from invokeServerStream_dispatches[OF req run[unfolded oe]]
  obtain evs' where evs: "evs = StubInvokeRpcServerStream r # evs'" by blast
  have "out \<noteq> Panics"
    using req str run oe
    by (auto simp: invokeServerStream_def Let_def split: option.splits if_splits)
  with run oe evs show ?thesis by blast
qed

lemma demo_server_recvLoop:
  "recvLoop (ssRecvMsg demoServerStream) 0 evs
     = Some (None, evs @ [OnReceiveResponse (Some demoReply), OnReceiveResponse (Some demoReply)])"
  apply (subst recvLoop.simps)
  apply (simp add: demoServerStream_def)
  apply (subst recvLoop.simps)
  apply (simp add: demoServerStream_def)
  apply (subst recvLoop.simps)
  apply (simp add: demoServerStream_def)
  done

text \<open>
  Claim C3. When the supplier returns a message and then, at its second call, \<^verbatim>\<open>nil\<close>
  again, a unary and a server-streaming invocation return the error for too many request
  messages, which holds the fully-qualified method name, and their trace is empty: the RPC
  is not dispatched and no trailers event is fired. When the first call of the supplier
  returns \<^verbatim>\<open>io.EOF\<close> and, as its contract demands, leaves the message alone, the request
  handed to the stub is the empty message that \<^verbatim>\<open>InvokeRPC\<close> made. The unary call returns
  with a trace that the dispatch of the empty message opens. The server-streaming call
  does so too: whenever the stub hands out a stream and the receive loop ends (or is
  skipped, the stream having come with an error), the call returns, without a panic, a
  trace that the dispatch of the empty message opens; when the stub hands out no stream,
  the empty message has been dispatched all the same, and the trace holds that dispatch
  alone, the call ending in the panic at \<^verbatim>\<open>str.Header()\<close>. The only server-streaming call
  with no trace is the one whose receive loop never ends.
\<close>

theorem single_request_discipline:
  "(requestData 0 req = (None, r1) \<and> requestData 1 r1 = (None, r2) \<longrightarrow>
      invokeUnary stub md requestData req
        = (Returns (Some (TooManyRequestMessages (mtdFqn md) ''unary'')), [])
      \<and> invokeServerStream stub md requestData req
        = Some (Returns (Some (TooManyRequestMessages (mtdFqn md) ''server-streaming'')), []))
   \<and> (requestData 0 (NewMessage t) = (Some EOF, NewMessage t) \<longrightarrow>
      (\<exists>out evs. invokeUnary stub md requestData (NewMessage t)
                    = (out, StubInvokeRpc (Message (msgFqn t) []) # evs))
      \<and> readSingleRequest ''server-streaming'' md requestData (NewMessage t)
           = Inr (Message (msgFqn t) [])
      \<and> (\<forall>out evs. invokeServerStream stub md requestData (NewMessage t) = Some (out, evs) \<longrightarrow>
            (\<exists>evs'. evs = StubInvokeRpcServerStream (Message (msgFqn t) []) # evs')))
   \<and> (requestData 0 (NewMessage t) = (Some EOF, NewMessage t)
        \<and> stInvokeRpcServerStream stub md (Message (msgFqn t) []) = (Some ss, openErr)
        \<and> (openErr = None \<longrightarrow> recvEndsAt (ssRecvMsg ss) k e) \<longrightarrow>
      (\<exists>out evs. invokeServerStream stub md requestData (NewMessage t)
                    = Some (out, StubInvokeRpcServerStream (Message (msgFqn t) []) # evs)
                 \<and> out \<noteq> Panics))
   \<and> (requestData 0 (NewMessage t) = (Some EOF, NewMessage t)
        \<and> stInvokeRpcServerStream stub md (Message (msgFqn t) []) = (None, openErr) \<longrightarrow>
      invokeServerStream stub md requestData (NewMessage t)
        = Some (Panics, [StubInvokeRpcServerStream (Message (msgFqn t) [])]))"
proof -
  have many: "invokeUnary stub md requestData req
        = (Returns (Some (TooManyRequestMessages (mtdFqn md) ''unary'')), [])
      \<and> invokeServerStream stub md requestData req
        = Some (Returns (Some (TooManyRequestMessages (mtdFqn md) ''server-streaming'')), [])"
    if "requestData 0 req = (None, r1)" "requestData 1 r1 = (None, r2)"
    using readSingleRequest_two[OF that] by (simp add: invokeUnary_def invokeServerStream_def)
  have rd: "readSingleRequest ''server-streaming'' md requestData (NewMessage t)
           = Inr (Message (msgFqn t) [])"
    if "requestData 0 (NewMessage t) = (Some EOF, NewMessage t)"
    using readSingleRequest_EOF[of requestData "NewMessage t", OF that]
    by (simp add: NewMessage_def)
  have empty: "(\<exists>out evs. invokeUnary stub md requestData (NewMessage t)
                    = (out, StubInvokeRpc (Message (msgFqn t) []) # evs))
      \<and> readSingleRequest ''server-streaming'' md requestData (NewMessage t)
           = Inr (Message (msgFqn t) [])
      \<and> (\<forall>out evs. invokeServerStream stub md requestData (NewMessage t) = Some (out, evs) \<longrightarrow>
            (\<exists>evs'. evs = StubInvokeRpcServerStream (Message (msgFqn t) []) # evs'))"
    if "requestData 0 (NewMessage t) = (Some EOF, NewMessage t)"
    using readSingleRequest_EOF[of requestData "NewMessage t", OF that]
      invokeUnary_dispatches[of md requestData "NewMessage t" "NewMessage t" stub]
      invokeServerStream_dispatches[of md requestData "NewMessage t" "NewMessage t" stub]
    by (simp add: NewMessage_def)
  have sent: "\<exists>out evs. invokeServerStream stub md requestData (NewMessage t)
                    = Some (out, StubInvokeRpcServerStream (Message (msgFqn t) []) # evs)
                 \<and> out \<noteq> Panics"
    if "requestData 0 (NewMessage t) = (Some EOF, NewMessage t)"
      "stInvokeRpcServerStream stub md (Message (msgFqn t) []) = (Some ss, openErr)"
      "openErr = None \<longrightarrow> recvEndsAt (ssRecvMsg ss) k e"
    using invokeServerStream_sends[OF rd[OF that(1)] that(2) that(3)] .
  have nil: "invokeServerStream stub md requestData (NewMessage t)
        = Some (Panics, [StubInvokeRpcServerStream (Message (msgFqn t) [])])"
    if "requestData 0 (NewMessage t) = (Some EOF, NewMessage t)"
      "stInvokeRpcServerStream stub md (Message (msgFqn t) []) = (None, openErr)"
    using rd[OF that(1)] that(2) by (simp add: invokeServerStream_def)
  from many empty sent nil show ?thesis by blast
qed

theorem single_request_discipline_witness:
  "twoMessages 0 (NewMessage (MessageDesc ''pkg.Req'')) = (None, demoRequest)
   \<and> twoMessages 1 demoRequest = (None, demoRequest)
   \<and> invokeUnary demoStub (demoMethod ''Echo'' False False) twoMessages
        (NewMessage (MessageDesc ''pkg.Req''))
       = (Returns (Some (TooManyRequestMessages ''pkg.Svc.Echo'' ''unary'')), [])
   \<and> invokeServerStream demoStub (demoMethod ''List'' False True) twoMessages
        (NewMessage (MessageDesc ''pkg.Req''))
       = Some (Returns (Some (TooManyRequestMessages ''pkg.Svc.List'' ''server-streaming'')), [])
   \<and> invokeUnary demoStub (demoMethod ''Echo'' False False) (\<lambda>i req. (Some EOF, req))
        (NewMessage (MessageDesc ''pkg.Req''))
       = (Returns None,
          [StubInvokeRpc (Message ''pkg.Req'' []), OnReceiveHeaders [],
           OnReceiveResponse (Some demoReply), OnReceiveTrailers (Status OK []) []])
   \<and> stInvokeRpcServerStream demoStub (demoMethod ''List'' False True) (Message ''pkg.Req'' [])
       = (Some demoServerStream, None)
   \<and> recvEndsAt (ssRecvMsg demoServerStream) 2 EOF
   \<and> (\<exists>out evs. invokeServerStream demoStub (demoMethod ''List'' False True)
                    (\<lambda>i req. (Some EOF, req)) (NewMessage (MessageDesc ''pkg.Req''))
                  = Some (out, StubInvokeRpcServerStream (Message ''pkg.Req'' []) # evs)
               \<and> out \<noteq> Panics)
   \<and> invokeServerStream demoStub (demoMethod ''List'' False True) (\<lambda>i req. (Some EOF, req))
        (NewMessage (MessageDesc ''pkg.Req''))
       = Some (Returns None,
          [StubInvokeRpcServerStream (Message ''pkg.Req'' []), OnReceiveHeaders [],
           OnReceiveResponse (Some demoReply), OnReceiveResponse (Some demoReply),
           OnReceiveTrailers (Status OK []) []])
   \<and> stInvokeRpcServerStream refusedStub (demoMethod ''List'' False True) (Message ''pkg.Req'' [])
       = (None, Some (Opaque ''connection refused''))
   \<and> invokeServerStream refusedStub (demoMethod ''List'' False True) (\<lambda>i req. (Some EOF, req))
        (NewMessage (MessageDesc ''pkg.Req''))
       = Some (Panics, [StubInvokeRpcServerStream (Message ''pkg.Req'' [])])"
proof -
  let ?req = "NewMessage (MessageDesc ''pkg.Req'')"
  let ?eof = "\<lambda>(i::nat) (req::message). (Some EOF, req)"
  have h1: "twoMessages 0 ?req = (None, demoRequest)" by (simp add: twoMessages_def)
  have h2: "twoMessages 1 demoRequest = (None, demoRequest)" by (simp add: twoMessages_def)
  have h3: "stInvokeRpcServerStream demoStub (demoMethod ''List'' False True) (Message ''pkg.Req'' [])
       = (Some demoServerStream, None)"
    by (simp add: demoStub_def)
  have h4: "stInvokeRpcServerStream refusedStub (demoMethod ''List'' False True)
        (Message ''pkg.Req'' []) = (None, Some (Opaque ''connection refused''))"
    by (simp add: refusedStub_def)
  note u = single_request_discipline[of twoMessages ?req demoRequest demoRequest demoStub
      "demoMethod ''Echo'' False False" "MessageDesc ''pkg.Req''" demoServerStream None 2 EOF]
  note s = single_request_discipline[of twoMessages ?req demoRequest demoRequest demoStub
      "demoMethod ''List'' False True" "MessageDesc ''pkg.Req''" demoServerStream None 2 EOF]
  note e = single_request_discipline[of ?eof ?req demoRequest demoRequest
      demoStub "demoMethod ''Echo'' False False" "MessageDesc ''pkg.Req''" demoServerStream None
      2 EOF]
  note se = single_request_discipline[of ?eof ?req demoRequest demoRequest
      demoStub "demoMethod ''List'' False True" "MessageDesc ''pkg.Req''" demoServerStream None
      2 EOF]
  note sn = single_request_discipline[of ?eof ?req demoRequest demoRequest
      refusedStub "demoMethod ''List'' False True" "MessageDesc ''pkg.Req''" demoServerStream
      "Some (Opaque ''connection refused'')" 2 EOF]
  have a: "invokeUnary demoStub (demoMethod ''Echo'' False False) twoMessages ?req
       = (Returns (Some (TooManyRequestMessages ''pkg.Svc.Echo'' ''unary'')), [])"
    using u h1 h2 by (simp add: demoMethod_def)
  have b: "invokeServerStream demoStub (demoMethod ''List'' False True) twoMessages ?req
       = Some (Returns (Some (TooManyRequestMessages ''pkg.Svc.List'' ''server-streaming'')), [])"
    using s h1 h2 by (simp add: demoMethod_def)
  have c: "invokeUnary demoStub (demoMethod ''Echo'' False False) ?eof ?req
       = (Returns None,
          [StubInvokeRpc (Message ''pkg.Req'' []), OnReceiveHeaders [],
           OnReceiveResponse (Some demoReply), OnReceiveTrailers (Status OK []) []])"
    using e by (simp add: invokeUnary_def readSingleRequest_def demoStub_def NewMessage_def Let_def)
  have d: "\<exists>out evs. invokeServerStream demoStub (demoMethod ''List'' False True) ?eof ?req
                  = Some (out, StubInvokeRpcServerStream (Message ''pkg.Req'' []) # evs)
               \<and> out \<noteq> Panics"
    using se h3 demo_server_recv by simp
  have rq: "readSingleRequest ''server-streaming'' (demoMethod ''List'' False True) ?eof ?req
      = Inr (Message ''pkg.Req'' [])"
    using se by simp
  have f: "invokeServerStream demoStub (demoMethod ''List'' False True) ?eof ?req
       = Some (Returns None,
          [StubInvokeRpcServerStream (Message ''pkg.Req'' []), OnReceiveHeaders [],
           OnReceiveResponse (Some demoReply), OnReceiveResponse (Some demoReply),
           OnReceiveTrailers (Status OK []) []])"
    using rq h3 demo_server_recvLoop
    by (simp add: invokeServerStream_def Let_def headerEvents_def demoServerStream_def)
  have g: "invokeServerStream refusedStub (demoMethod ''List'' False True) ?eof ?req
       = Some (Panics, [StubInvokeRpcServerStream (Message ''pkg.Req'' [])])"
    using sn h4 by simp
  from h1 h2 a b c h3 demo_server_recv d f h4 g show ?thesis by blast
qed

lemma invokeServerStream_nil_stream:
  assumes "readSingleRequest ''server-streaming'' md requestData req = Inr r"
    and "stInvokeRpcServerStream stub md r = (None, openErr)"
  shows "invokeServerStream stub md requestData req = Some (Panics, [StubInvokeRpcServerStream r])"
  using assms by (simp add: invokeServerStream_def)

lemma invokeBidi_nil_stream:
  assumes "stInvokeRpcBidiStream stub md = (None, openErr)"
  shows "invokeBidi stub md requestData req storedBeforeLoad = Some (Panics, [StubInvokeRpcBidiStream])"
  using assms by (simp add: invokeBidi_def)

lemma specClassify_returns: "fst (specClassify fqn err trailers pre) \<noteq> Panics"
  by (simp add: specClassify_def split: option.split)

lemma invokeServerStream_no_panic:
  assumes "readSingleRequest ''server-streaming'' md requestData req = Inr r"
    and "stInvokeRpcServerStream stub md r = (Some ss, openErr)"
    and "invokeServerStream stub md requestData req = Some (out, evs)"
  shows "out \<noteq> Panics"
  using assms
  by (auto simp: invokeServerStream_def Let_def split: option.splits if_splits)

lemma invokeBidi_no_panic:
  assumes "stInvokeRpcBidiStream stub md = (Some bs, openErr)"
    and "invokeBidi stub md requestData req storedBeforeLoad = Some (out, evs)"
  shows "out \<noteq> Panics"
  using assms
  by (auto simp: invokeBidi_def Let_def split: option.splits if_splits)

lemma invokeServerStream_open_error:
  assumes "readSingleRequest ''server-streaming'' md requestData req = Inr r"
    and "stInvokeRpcServerStream stub md r = (Some ss, Some oe)"
  shows "invokeServerStream stub md requestData req
           = Some (specClassify (mtdFqn md) (Some oe) (ssTrailer ss)
                     (StubInvokeRpcServerStream r # headerEvents (ssHeader ss)))"
  using assms by (simp add: invokeServerStream_def specClassify_def Let_def split: option.split)

lemma invokeBidi_open_error:
  assumes "stInvokeRpcBidiStream stub md = (Some bs, Some oe)"
  shows "invokeBidi stub md requestData req storedBeforeLoad
           = Some (specClassify (mtdFqn md) (Some oe) (bsTrailer bs)
                     (StubInvokeRpcBidiStream # headerEvents (bsHeader bs)))"
  using assms by (simp add: invokeBidi_def specClassify_def Let_def split: option.split)

text \<open>
  Claim C9. A server-streaming and a bidirectional invocation call \<^verbatim>\<open>Header()\<close> on the
  stream whatever error came with it. With a \<^verbatim>\<open>nil\<close> stream the call panics, with or without
  an error. With a usable stream and an error from opening it, the result of \<^verbatim>\<open>Header()\<close>
  is in the trace and the trailers of the stream go with the status. With a usable stream
  no invocation that returns has panicked.
\<close>

theorem stream_handle_used_unchecked:
  "(readSingleRequest ''server-streaming'' md requestData req = Inr r
      \<and> stInvokeRpcServerStream stub md r = (None, openErr) \<longrightarrow>
    invokeServerStream stub md requestData req = Some (Panics, [StubInvokeRpcServerStream r]))
   \<and> (stInvokeRpcBidiStream stub md = (None, openErr) \<longrightarrow>
    invokeBidi stub md requestData req storedBeforeLoad = Some (Panics, [StubInvokeRpcBidiStream]))
   \<and> (readSingleRequest ''server-streaming'' md requestData req = Inr r
      \<and> stInvokeRpcServerStream stub md r = (Some ss, Some oe) \<longrightarrow>
    invokeServerStream stub md requestData req
      = Some (specClassify (mtdFqn md) (Some oe) (ssTrailer ss)
                (StubInvokeRpcServerStream r # headerEvents (ssHeader ss))))
   \<and> (stInvokeRpcBidiStream stub md = (Some bs, Some oe) \<longrightarrow>
    invokeBidi stub md requestData req storedBeforeLoad
      = Some (specClassify (mtdFqn md) (Some oe) (bsTrailer bs)
                (StubInvokeRpcBidiStream # headerEvents (bsHeader bs))))
   \<and> (readSingleRequest ''server-streaming'' md requestData req = Inr r
      \<and> stInvokeRpcServerStream stub md r = (Some ss, openErr)
      \<and> invokeServerStream stub md requestData req = Some (out, evs) \<longrightarrow> out \<noteq> Panics)
   \<and> (stInvokeRpcBidiStream stub md = (Some bs, openErr)
      \<and> invokeBidi stub md requestData req storedBeforeLoad = Some (out, evs) \<longrightarrow> out \<noteq> Panics)"
  using invokeServerStream_nil_stream[of md requestData req r stub openErr]
    invokeBidi_nil_stream[of stub md openErr requestData req storedBeforeLoad]
    invokeServerStream_open_error[of md requestData req r stub ss oe]
    invokeBidi_open_error[of stub md bs oe requestData req storedBeforeLoad]
    invokeServerStream_no_panic[of md requestData req r stub ss openErr out evs]
    invokeBidi_no_panic[of stub md bs openErr requestData req storedBeforeLoad out evs]
  by blast

theorem stream_handle_used_unchecked_witness:
  "invokeServerStream refusedStub (demoMethod ''List'' False True) demoSupplier
       (NewMessage (MessageDesc ''pkg.Req''))
     = Some (Panics, [StubInvokeRpcServerStream demoRequest])
   \<and> invokeBidi refusedStub (demoMethod ''Chat'' True True) demoSupplier
       (NewMessage (MessageDesc ''pkg.Req'')) True
     = Some (Panics, [StubInvokeRpcBidiStream])
   \<and> invokeServerStream statusStub (demoMethod ''List'' False True) demoSupplier
       (NewMessage (MessageDesc ''pkg.Req''))
     = Some (Returns None,
             [StubInvokeRpcServerStream demoRequest, OnReceiveHeaders [],
              OnReceiveTrailers (Status Unavailable ''down'') []])
   \<and> invokeBidi statusStub (demoMethod ''Chat'' True True) demoSupplier
       (NewMessage (MessageDesc ''pkg.Req'')) True
     = Some (Returns None,
             [StubInvokeRpcBidiStream, OnReceiveHeaders [],
              OnReceiveTrailers (Status Unavailable ''down'') []])"
proof -
  let ?req = "NewMessage (MessageDesc ''pkg.Req'')"
  let ?list = "demoMethod ''List'' False True"
  let ?chat = "demoMethod ''Chat'' True True"
  have rq: "readSingleRequest ''server-streaming'' ?list demoSupplier ?req = Inr demoRequest"
    by (rule demo_single_request)
  note n = stream_handle_used_unchecked[of ?list demoSupplier ?req demoRequest refusedStub
      "Some (Opaque ''connection refused'')" True demoServerStream
      "Opaque ''connection refused''" demoBidiStream "Returns None" "[]"]
  note nb = stream_handle_used_unchecked[of ?chat demoSupplier ?req demoRequest refusedStub
      "Some (Opaque ''connection refused'')" True demoServerStream
      "Opaque ''connection refused''" demoBidiStream "Returns None" "[]"]
  note u = stream_handle_used_unchecked[of ?list demoSupplier ?req demoRequest statusStub
      "Some (StatusError Unavailable ''down'')" True demoServerStream
      "StatusError Unavailable ''down''" demoBidiStream "Returns None" "[]"]
  note ub = stream_handle_used_unchecked[of ?chat demoSupplier ?req demoRequest statusStub
      "Some (StatusError Unavailable ''down'')" True demoServerStream
      "StatusError Unavailable ''down''" demoBidiStream "Returns None" "[]"]
  have a: "invokeServerStream refusedStub ?list demoSupplier ?req
     = Some (Panics, [StubInvokeRpcServerStream demoRequest])"
    using n rq by (simp add: refusedStub_def)
  have b: "invokeBidi refusedStub ?chat demoSupplier ?req True
     = Some (Panics, [StubInvokeRpcBidiStream])"
    using nb by (simp add: refusedStub_def)
  have c: "invokeServerStream statusStub ?list demoSupplier ?req
     = Some (Returns None,
             [StubInvokeRpcServerStream demoRequest, OnReceiveHeaders [],
              OnReceiveTrailers (Status Unavailable ''down'') []])"
    using u rq by (simp add: statusStub_def specClassify_def headerEvents_def demoServerStream_def)
  have d: "invokeBidi statusStub ?chat demoSupplier ?req True
     = Some (Returns None,
             [StubInvokeRpcBidiStream, OnReceiveHeaders [],
              OnReceiveTrailers (Status Unavailable ''down'') []])"
    using ub by (simp add: statusStub_def specClassify_def headerEvents_def demoBidiStream_def)
  from a b c d show ?thesis by blast
qed

subsection \<open>Base64 and binary metadata\<close>

lemma val24:
  fixes v :: nat
  assumes "v < 16777216"
  shows "(v div 262144 mod 64) * 262144 + (v div 4096 mod 64) * 4096 + (v div 64 mod 64) * 64 + v mod 64 = v"
proof -
  have a: "v div 4096 = v div 64 div 64" by (simp add: div_mult2_eq[symmetric])
  have b: "v div 262144 = v div 4096 div 64" by (simp add: div_mult2_eq[symmetric])
  have "v div 262144 < 64" using assms by (simp add: less_mult_imp_div_less)
  then have c: "v div 262144 mod 64 = v div 262144" by simp
  have d: "v div 4096 = v div 262144 * 64 + v div 4096 mod 64"
    unfolding b by simp
  have e: "v div 64 = v div 4096 * 64 + v div 64 mod 64"
    unfolding a by simp
  have f: "v = v div 64 * 64 + v mod 64" by simp
  have "v = ((v div 262144 * 64 + v div 4096 mod 64) * 64 + v div 64 mod 64) * 64 + v mod 64"
    using d e f by metis
  then show ?thesis unfolding c by (simp add: algebra_simps)
qed

lemma sextets_reassemble:
  fixes val :: nat
  assumes lt: "val < 16777216"
  shows "push_bit 18 (sextet val 18) + push_bit 12 (sextet val 12) + push_bit 6 (sextet val 6)
           + sextet val 0 = val"
proof -
  have s18: "push_bit 18 (sextet val 18) = (val div 262144 mod 64) * 262144"
    by (simp only: sextet_def push_bit_eq_mult drop_bit_eq_div) simp
  have s12: "push_bit 12 (sextet val 12) = (val div 4096 mod 64) * 4096"
    by (simp only: sextet_def push_bit_eq_mult drop_bit_eq_div) simp
  have s6: "push_bit 6 (sextet val 6) = (val div 64 mod 64) * 64"
    by (simp only: sextet_def push_bit_eq_mult drop_bit_eq_div) simp
  have s0: "sextet val 0 = val mod 64"
    by (simp add: sextet_def)
  show ?thesis
    by (simp only: s18 s12 s6 s0 val24[OF lt])
qed

lemma quantumBytes_4:
  fixes b0 b1 b2 :: nat
  assumes "b0 < 256" "b1 < 256" "b2 < 256"
    and v: "val = push_bit 16 b0 + push_bit 8 b1 + b2"
  shows "quantumBytes [sextet val 18, sextet val 12, sextet val 6, sextet val 0]
           = [char_of b0, char_of b1, char_of b2]"
proof -
  have v': "val = b0 * 65536 + b1 * 256 + b2"
    by (simp add: v push_bit_eq_mult)
  then have lt: "val < 16777216" using assms(1-3) by simp
  have d16: "drop_bit 16 val = b0" using assms(1-3) by (simp add: v' drop_bit_eq_div)
  have "drop_bit 8 val = b0 * 256 + b1" using assms(1-3) by (simp add: v' drop_bit_eq_div)
  then have "drop_bit 8 val mod 256 = b1" using assms(1-3) by simp
  then have d8: "char_of (drop_bit 8 val) = char_of b1" by (metis char_of_mod_256)
  have "val = (b0 * 256 + b1) * 256 + b2" by (simp add: v')
  then have "val mod 256 = b2 mod 256" by (simp only: mod_mult_self3)
  then have "val mod 256 = b2" using assms(3) by simp
  then have d0: "char_of val = char_of b2" by (metis char_of_mod_256)
  have "quantumBytes [sextet val 18, sextet val 12, sextet val 6, sextet val 0]
      = [char_of (drop_bit 16 val), char_of (drop_bit 8 val), char_of val]"
    using sextets_reassemble[OF lt] by (simp add: quantumBytes_def dbufAt_def Let_def)
  then show ?thesis by (simp only: d16 d8 d0)
qed

lemma quantumBytes_3:
  fixes b0 b1 :: nat
  assumes "b0 < 256" "b1 < 256"
    and v: "val = push_bit 16 b0 + push_bit 8 b1"
  shows "quantumBytes [sextet val 18, sextet val 12, sextet val 6] = [char_of b0, char_of b1]"
proof -
  have v': "val = b0 * 65536 + b1 * 256"
    by (simp add: v push_bit_eq_mult)
  then have lt: "val < 16777216" using assms(1-2) by simp
  have "val = (b0 * 1024 + b1 * 4) * 64" by (simp add: v')
  then have "val mod 64 = 0" by (simp only: mod_mult_self2_is_0)
  then have z: "sextet val 0 = 0" by (simp add: sextet_def)
  have d16: "drop_bit 16 val = b0" using assms(1-2) by (simp add: v' drop_bit_eq_div)
  have "drop_bit 8 val = b0 * 256 + b1" using assms(1-2) by (simp add: v' drop_bit_eq_div)
  then have "drop_bit 8 val mod 256 = b1" using assms(1-2) by simp
  then have d8: "char_of (drop_bit 8 val) = char_of b1" by (metis char_of_mod_256)
  have "quantumBytes [sextet val 18, sextet val 12, sextet val 6]
      = [char_of (drop_bit 16 val), char_of (drop_bit 8 val)]"
    using sextets_reassemble[OF lt] z by (simp add: quantumBytes_def dbufAt_def Let_def)
  then show ?thesis by (simp only: d16 d8)
qed

lemma quantumBytes_2:
  fixes b0 :: nat
  assumes "b0 < 256"
    and v: "val = push_bit 16 b0"
  shows "quantumBytes [sextet val 18, sextet val 12] = [char_of b0]"
proof -
  have v': "val = b0 * 65536"
    by (simp add: v push_bit_eq_mult)
  then have lt: "val < 16777216" using assms(1) by simp
  have f: "val = (b0 * 1024) * 64" by (simp add: v')
  then have "val mod 64 = 0" by (simp only: mod_mult_self2_is_0)
  then have z: "sextet val 0 = 0" by (simp add: sextet_def)
  have "val div 64 = (b0 * 16) * 64" by (simp add: f)
  then have "val div 64 mod 64 = 0" by (simp only: mod_mult_self2_is_0)
  then have z6: "sextet val 6 = 0" by (simp add: sextet_def drop_bit_eq_div)
  have d16: "drop_bit 16 val = b0" using assms(1) by (simp add: v' drop_bit_eq_div)
  have "quantumBytes [sextet val 18, sextet val 12] = [char_of (drop_bit 16 val)]"
    using sextets_reassemble[OF lt] z z6 by (simp add: quantumBytes_def dbufAt_def Let_def)
  then show ?thesis by (simp only: d16)
qed


lemma indexOf_nth: "distinct xs \<Longrightarrow> i < length xs \<Longrightarrow> indexOf xs (xs ! i) = Some i"
proof (induction xs arbitrary: i)
  case Nil
  then show ?case by simp
next
  case (Cons x xs)
  then show ?case by (cases i) auto
qed

lemma indexOf_None: "c \<notin> set xs \<Longrightarrow> indexOf xs c = None"
  by (induction xs) auto

lemma distinct_encodeStd: "distinct encodeStd"
  by (simp add: encodeStd_def)

lemma length_encodeStd: "length encodeStd = 64"
  by (simp add: encodeStd_def)

lemma sextet_lt: "sextet val k < 64"
  by (simp add: sextet_def)

lemma decodeMap_Std: "i < 64 \<Longrightarrow> decodeMap StdEncoding (encodeStd ! i) = Some i"
  using indexOf_nth[OF distinct_encodeStd, of i]
  by (simp add: decodeMap_def StdEncoding_def length_encodeStd)

lemma decodeMap_Std_pad: "decodeMap StdEncoding (CHR ''='') = None"
  by (simp add: decodeMap_def StdEncoding_def encodeStd_def)

lemma padChar_Std: "padChar StdEncoding = Some (CHR ''='')"
  by (simp add: StdEncoding_def)

lemma encode_Std: "encode StdEncoding = encodeStd"
  by (simp add: StdEncoding_def)

lemma decodeFrom_Std_quantum:
  assumes "v0 < 64" "v1 < 64" "v2 < 64" "v3 < 64"
  shows "decodeFrom StdEncoding [] (encodeStd ! v0 # encodeStd ! v1 # encodeStd ! v2 # encodeStd ! v3 # rest)
           = map_option ((@) (quantumBytes [v0, v1, v2, v3])) (decodeFrom StdEncoding [] rest)"
  using assms by (simp add: decodeMap_Std)

lemma decodeFrom_Std_pad1:
  assumes "v0 < 64" "v1 < 64" "v2 < 64"
  shows "decodeFrom StdEncoding [] [encodeStd ! v0, encodeStd ! v1, encodeStd ! v2, CHR ''='']
           = Some (quantumBytes [v0, v1, v2])"
  using assms by (simp add: decodeMap_Std decodeMap_Std_pad isNewline_def padChar_Std)

lemma decodeFrom_Std_pad2:
  assumes "v0 < 64" "v1 < 64"
  shows "decodeFrom StdEncoding [] [encodeStd ! v0, encodeStd ! v1, CHR ''='', CHR ''='']
           = Some (quantumBytes [v0, v1])"
  using assms by (simp add: decodeMap_Std decodeMap_Std_pad isNewline_def padChar_Std)

lemma of_char_lt: "(of_char c :: nat) < 256"
proof -
  have "(of_char c :: nat) mod 256 = of_char c" by (rule of_char_mod_256)
  then show ?thesis by (metis mod_less_divisor zero_less_numeral)
qed

lemma base64_Std_roundtrip: "DecodeString StdEncoding (EncodeToString StdEncoding b) = Some b"
  unfolding DecodeString_def
proof (induction StdEncoding b rule: EncodeToString.induct)
  case (1 b0 b1 b2 src)
  define val :: nat where "val = push_bit 16 (of_char b0) + push_bit 8 (of_char b1) + of_char b2"
  have q: "quantumBytes [sextet val 18, sextet val 12, sextet val 6, sextet val 0] = [b0, b1, b2]"
    using quantumBytes_4[OF of_char_lt of_char_lt of_char_lt val_def] by simp
  have "EncodeToString StdEncoding (b0 # b1 # b2 # src)
      = encodeStd ! sextet val 18 # encodeStd ! sextet val 12 # encodeStd ! sextet val 6
        # encodeStd ! sextet val 0 # EncodeToString StdEncoding src"
    by (simp add: val_def Let_def encode_Std)
  then show ?case
    using decodeFrom_Std_quantum[OF sextet_lt sextet_lt sextet_lt sextet_lt] q "1.hyps"
    by simp
next
  case (2 b0 b1)
  define val :: nat where "val = push_bit 16 (of_char b0) + push_bit 8 (of_char b1)"
  have q: "quantumBytes [sextet val 18, sextet val 12, sextet val 6] = [b0, b1]"
    using quantumBytes_3[OF of_char_lt of_char_lt val_def] by simp
  have "EncodeToString StdEncoding [b0, b1]
      = [encodeStd ! sextet val 18, encodeStd ! sextet val 12, encodeStd ! sextet val 6, CHR ''='']"
    by (simp add: val_def Let_def encode_Std padChar_Std padding_def numeral_2_eq_2)
  then show ?case
    using decodeFrom_Std_pad1[OF sextet_lt sextet_lt sextet_lt] q by simp
next
  case (3 b0)
  define val :: nat where "val = push_bit 16 (of_char b0 :: nat)"
  have q: "quantumBytes [sextet val 18, sextet val 12] = [b0]"
    using quantumBytes_2[OF of_char_lt val_def] by simp
  have "EncodeToString StdEncoding [b0]
      = [encodeStd ! sextet val 18, encodeStd ! sextet val 12, CHR ''='', CHR ''='']"
    by (simp add: val_def Let_def encode_Std padChar_Std padding_def numeral_2_eq_2)
  then show ?case
    using decodeFrom_Std_pad2[OF sextet_lt sextet_lt] q by simp
next
  case 4
  show ?case by simp
qed


lemma EncodeToString_Std_chars: "set (EncodeToString StdEncoding b) \<subseteq> base64Chars"
proof (induction StdEncoding b rule: EncodeToString.induct)
  case (1 b0 b1 b2 src)
  then show ?case
    by (simp add: Let_def encode_Std base64Chars_def length_encodeStd sextet_lt)
next
  case (2 b0 b1)
  show ?case
    by (simp add: Let_def encode_Std padChar_Std padding_def base64Chars_def length_encodeStd sextet_lt)
next
  case (3 b0)
  show ?case
    by (simp add: Let_def encode_Std padChar_Std padding_def base64Chars_def length_encodeStd sextet_lt)
next
  case 4
  show ?case by simp
qed

lemma leadingRune_None:
  assumes "\<forall>p \<in> set runes. p \<noteq> [] \<longrightarrow> hd p \<notin> set s"
  shows "leadingRune runes s = None"
proof -
  have "\<not> (p \<noteq> [] \<and> take (length p) s = p)" if "p \<in> set runes" for p
  proof
    assume a: "p \<noteq> [] \<and> take (length p) s = p"
    then have "s \<noteq> []" by auto
    with a have "hd p = hd s" by (metis hd_take length_greater_0_conv)
    with \<open>s \<noteq> []\<close> have "hd p \<in> set s" by simp
    with assms that a show False by blast
  qed
  then show ?thesis by (simp add: leadingRune_def find_None_iff)
qed

lemma dropLeading_id:
  assumes "\<forall>p \<in> set runes. p \<noteq> [] \<longrightarrow> hd p \<notin> set s"
  shows "dropLeading runes s = s"
  by (subst dropLeading.simps) (simp add: leadingRune_None[OF assms])

lemma spaceRunes_heads: "\<forall>p \<in> set spaceRunes. p \<noteq> [] \<longrightarrow> hd p \<notin> base64Chars"
  by (simp add: spaceRunes_def base64Chars_def encodeStd_def)

lemma spaceRunes_lasts: "\<forall>p \<in> set (map rev spaceRunes). p \<noteq> [] \<longrightarrow> hd p \<notin> base64Chars"
  by (simp add: spaceRunes_def base64Chars_def encodeStd_def)

lemma TrimSpace_id:
  assumes "set s \<subseteq> base64Chars"
  shows "TrimSpace s = s"
proof -
  have a: "dropLeading spaceRunes s = s"
    using spaceRunes_heads assms by (intro dropLeading_id) blast
  have b: "dropLeading (map rev spaceRunes) (rev s) = rev s"
    using spaceRunes_lasts assms by (intro dropLeading_id) (metis set_rev subsetD)
  show ?thesis by (simp add: TrimSpace_def a b)
qed

lemma TrimSpace_space_Cons: "TrimSpace (CHR '' '' # s) = TrimSpace s"
proof -
  have "leadingRune spaceRunes (CHR '' '' # s) = Some [CHR '' '']"
    by (simp add: leadingRune_def spaceRunes_def)
  then have "dropLeading spaceRunes (CHR '' '' # s) = dropLeading spaceRunes s"
    by (subst dropLeading.simps) simp
  then show ?thesis by (simp add: TrimSpace_def)
qed

lemma decode_Std_encoded: "decode (EncodeToString StdEncoding b) = Some b"
  by (simp add: decode_def base64Codecs_def base64_Std_roundtrip)

lemma xbin_name: "ToLower unicodeLower (TrimSpace ''x-bin'') = ''x-bin''"
proof -
  have a: "dropLeading spaceRunes ''x-bin'' = ''x-bin''"
    by (rule dropLeading_id) (simp add: spaceRunes_def)
  have b: "dropLeading (map rev spaceRunes) (rev ''x-bin'') = rev ''x-bin''"
    by (rule dropLeading_id) (simp add: spaceRunes_def)
  have "TrimSpace ''x-bin'' = ''x-bin''"
    unfolding TrimSpace_def a b by simp
  then show ?thesis by (simp add: ToLower_def lowerASCII_def)
qed

text \<open>
  Claim C5. For every byte string \<open>b\<close>, the one header \<open>x-bin: \<close> followed by the standard
  base64 encoding of \<open>b\<close> parses to the metadata with the single entry \<open>x-bin\<close> and the
  single value \<open>b\<close>, and that metadata renders as the header line again.
\<close>

theorem binary_metadata_roundtrip:
  "MetadataFromHeaders unicodeLower [''x-bin: '' @ EncodeToString StdEncoding b] = [(''x-bin'', [b])]
   \<and> MetadataToString [(''x-bin'', [b])] = ''x-bin: '' @ EncodeToString StdEncoding b"
proof -
  let ?e = "EncodeToString StdEncoding b"
  define part where "part = ''x-bin: '' @ ?e"
  have nonempty: "part \<noteq> []"
    by (simp add: part_def)
  have split: "SplitN2 part (CHR '':'') = [''x-bin'', CHR '' '' # ?e]"
    by (simp add: part_def SplitN2_def Let_def)
  have val: "TrimSpace (CHR '' '' # ?e) = ?e"
    using TrimSpace_id[OF EncodeToString_Std_chars] by (simp add: TrimSpace_space_Cons)
  have suffix: "HasSuffix ''x-bin'' ''-bin''"
    by (simp add: HasSuffix_def)
  have "addHeader unicodeLower [] part = [(''x-bin'', [b])]"
    by (simp add: addHeader_def nonempty split Let_def xbin_name val suffix decode_Std_encoded
        mdAppend_def)
  then have parse: "MetadataFromHeaders unicodeLower [''x-bin: '' @ ?e] = [(''x-bin'', [b])]"
    by (simp only: MetadataFromHeaders_def part_def foldl.simps)
  have render: "MetadataToString [(''x-bin'', [b])] = ''x-bin: '' @ ?e"
    by (simp add: MetadataToString_def writeKey_def writeValue_def suffix Let_def)
  from parse render show ?thesis by simp
qed

lemma hello_encoded: "EncodeToString StdEncoding ''hello'' = ''aGVsbG8=''"
  by (simp add: Let_def encode_Std padChar_Std padding_def sextet_def encodeStd_def
      push_bit_eq_mult drop_bit_eq_div)

theorem binary_metadata_roundtrip_witness:
  "MetadataFromHeaders id [''x-bin: aGVsbG8=''] = [(''x-bin'', [''hello''])]
   \<and> MetadataToString [(''x-bin'', [''hello''])] = ''x-bin: aGVsbG8=''"
  using binary_metadata_roundtrip[of id "''hello''", unfolded hello_encoded] by simp

subsection \<open>Parsing headers\<close>

lemma Index_neg_iff: "Index s c < 0 \<longleftrightarrow> c \<notin> set s"
  by (induction s) (auto simp: Let_def)

lemma Index_takeWhile: "0 \<le> Index s c \<Longrightarrow> take (nat (Index s c)) s = takeWhile (\<lambda>x. x \<noteq> c) s"
proof (induction s)
  case Nil
  then show ?case by simp
next
  case (Cons x xs)
  show ?case
  proof (cases "x = c")
    case True
    then show ?thesis by simp
  next
    case False
    with Cons.prems have pos: "0 \<le> Index xs c" by (auto simp: Let_def split: if_splits)
    then have "nat (Index xs c + 1) = Suc (nat (Index xs c))" by simp
    with False pos Cons.IH show ?thesis by (simp add: Let_def)
  qed
qed

lemma Index_dropWhile:
  "0 \<le> Index s c \<Longrightarrow> drop (nat (Index s c + 1)) s = drop 1 (dropWhile (\<lambda>x. x \<noteq> c) s)"
proof (induction s)
  case Nil
  then show ?case by simp
next
  case (Cons x xs)
  show ?case
  proof (cases "x = c")
    case True
    then show ?thesis by simp
  next
    case False
    with Cons.prems have pos: "0 \<le> Index xs c" by (auto simp: Let_def split: if_splits)
    then have "nat (Index xs c + 1 + 1) = Suc (nat (Index xs c + 1))" by simp
    with False pos Cons.IH show ?thesis by (simp add: Let_def)
  qed
qed

lemma pieces_name:
  "(let pieces = SplitN2 part c; pieces = (if length pieces = 1 then pieces @ [[]] else pieces)
    in pieces ! 0) = takeWhile (\<lambda>x. x \<noteq> c) part"
proof (cases "Index part c < 0")
  case True
  then have "c \<notin> set part" by (simp add: Index_neg_iff)
  then have tw: "takeWhile (\<lambda>x. x \<noteq> c) part = part" by (auto simp: takeWhile_eq_all_conv)
  show ?thesis using True by (simp add: SplitN2_def Let_def tw)
next
  case False
  then show ?thesis using Index_takeWhile[of part c] by (simp add: SplitN2_def Let_def)
qed

lemma pieces_value:
  "(let pieces = SplitN2 part c; pieces = (if length pieces = 1 then pieces @ [[]] else pieces)
    in pieces ! 1) = drop 1 (dropWhile (\<lambda>x. x \<noteq> c) part)"
proof (cases "Index part c < 0")
  case True
  then have "c \<notin> set part" by (simp add: Index_neg_iff)
  then have dw: "dropWhile (\<lambda>x. x \<noteq> c) part = []" by auto
  show ?thesis using True by (simp add: SplitN2_def Let_def dw)
next
  case False
  then show ?thesis using Index_dropWhile[of part c] by (simp add: SplitN2_def Let_def)
qed

lemma HasSuffix_rev: "HasSuffix s t \<longleftrightarrow> take (length t) (rev s) = rev t"
proof
  assume "HasSuffix s t"
  then have "length t \<le> length s" and "drop (length s - length t) s = t"
    by (auto simp: HasSuffix_def)
  then show "take (length t) (rev s) = rev t"
    by (metis rev_drop rev_rev_ident rev_swap take_rev)
next
  assume a: "take (length t) (rev s) = rev t"
  then have "length t \<le> length s"
    by (metis length_rev length_take min.cobounded2 min_def nat_le_linear)
  moreover have "drop (length s - length t) s = t"
    using a by (metis rev_rev_ident take_rev length_rev rev_swap)
  ultimately show "HasSuffix s t" by (simp add: HasSuffix_def)
qed

lemma decode_specDecode: "(case decode val of Some v \<Rightarrow> v | None \<Rightarrow> val) = specDecode val"
  by (simp add: decode_def base64Codecs_def specDecode_def split: option.splits)

lemma addHeader_spec:
  "addHeader unicodeLower m part =
     (if part = [] then m
      else mdAppend m (specHeaderName unicodeLower part) (specHeaderValue unicodeLower part))"
proof (cases "part = []")
  case True
  then show ?thesis by (simp add: addHeader_def)
next
  case False
  have n: "(let pieces = SplitN2 part (CHR '':''); pieces = (if length pieces = 1 then pieces @ [[]] else pieces)
    in pieces ! 0) = takeWhile (\<lambda>x. x \<noteq> CHR '':'') part" by (rule pieces_name)
  have v: "(let pieces = SplitN2 part (CHR '':''); pieces = (if length pieces = 1 then pieces @ [[]] else pieces)
    in pieces ! 1) = drop 1 (dropWhile (\<lambda>x. x \<noteq> CHR '':'') part)" by (rule pieces_value)
  have l4: "length ''-bin'' = 4" by simp
  have s: "HasSuffix x ''-bin'' \<longleftrightarrow> take 4 (rev x) = rev ''-bin''" for x
    using HasSuffix_rev[of x "''-bin''"] unfolding l4 .
  from False n v show ?thesis
    unfolding addHeader_def specHeaderName_def specHeaderValue_def Let_def s decode_specDecode
    by simp
qed

lemma map_of_update_values:
  "map_of (map (\<lambda>(k', vs'). if k' = k then (k', vs' @ [v]) else (k', vs')) m) k''
     = (if k'' = k then map_option (\<lambda>vs. vs @ [v]) (map_of m k) else map_of m k'')"
  by (induction m) auto

lemma keys_update_values:
  "map fst (map (\<lambda>(k', vs'). if k' = k then (k', vs' @ [v]) else (k', vs')) m) = map fst m"
  by (induction m) auto

lemma valuesOf_snoc:
  "valuesOf k' (pairs @ [(k, v)]) = (if k' = k then valuesOf k' pairs @ [v] else valuesOf k' pairs)"
  by (simp add: valuesOf_def)

lemma mdInv_mdAppend:
  assumes "mdInv m pairs"
  shows "mdInv (mdAppend m k v) (pairs @ [(k, v)])"
proof -
  from assms have dist: "distinct (map fst m)"
    and look: "\<And>k'. map_of m k' = (if k' \<in> fst ` set pairs then Some (valuesOf k' pairs) else None)"
    by (simp_all add: mdInv_def)
  have keys: "fst ` set (pairs @ [(k, v)]) = insert k (fst ` set pairs)" by auto
  show ?thesis
  proof (cases "map_of m k")
    case None
    then have notin: "k \<notin> fst ` set pairs" using look[of k] by (simp split: if_splits)
    then have empty: "valuesOf k pairs = []"
      by (auto simp: valuesOf_def filter_empty_conv)
    have fresh: "k \<notin> set (map fst m)" using None by (simp add: map_of_eq_None_iff)
    have app: "mdAppend m k v = m @ [(k, [v])]" using None by (simp add: mdAppend_def)
    have lookup: "map_of (mdAppend m k v) k' = (if k' = k then Some [v] else map_of m k')" for k'
      using None by (auto simp: app map_add_def split: option.splits)
    have d: "distinct (map fst (mdAppend m k v))" using dist fresh by (simp add: app)
    have "map_of (mdAppend m k v) k' =
        (if k' \<in> fst ` set (pairs @ [(k, v)]) then Some (valuesOf k' (pairs @ [(k, v)])) else None)" for k'
      unfolding lookup keys valuesOf_snoc using look[of k'] empty notin by auto
    with d show ?thesis unfolding mdInv_def by blast
  next
    case (Some vs)
    then have isin: "k \<in> fst ` set pairs" and vs: "vs = valuesOf k pairs"
      using look[of k] by (auto split: if_splits)
    have app: "mdAppend m k v = map (\<lambda>(k', vs'). if k' = k then (k', vs' @ [v]) else (k', vs')) m"
      using Some by (simp add: mdAppend_def)
    have lookup: "map_of (mdAppend m k v) k' = (if k' = k then Some (vs @ [v]) else map_of m k')" for k'
      using Some by (simp add: app map_of_update_values)
    have d: "distinct (map fst (mdAppend m k v))" using dist by (simp only: app keys_update_values)
    have "map_of (mdAppend m k v) k' =
        (if k' \<in> fst ` set (pairs @ [(k, v)]) then Some (valuesOf k' (pairs @ [(k, v)])) else None)" for k'
      unfolding lookup keys valuesOf_snoc using look[of k'] isin vs by auto
    with d show ?thesis unfolding mdInv_def by blast
  qed
qed

lemma foldl_addHeader_inv:
  "mdInv m pairs \<Longrightarrow>
   mdInv (foldl (addHeader unicodeLower) m headers) (pairs @ specPairs unicodeLower headers)"
proof (induction headers arbitrary: m pairs)
  case Nil
  then show ?case by (simp add: specPairs_def)
next
  case (Cons part headers)
  show ?case
  proof (cases "part = []")
    case True
    then show ?thesis using Cons.IH[OF Cons.prems] by (simp add: addHeader_spec specPairs_def)
  next
    case False
    have "mdInv (addHeader unicodeLower m part)
        (pairs @ [(specHeaderName unicodeLower part, specHeaderValue unicodeLower part)])"
      using mdInv_mdAppend[OF Cons.prems] False by (simp add: addHeader_spec)
    from Cons.IH[OF this] False show ?thesis by (simp add: specPairs_def)
  qed
qed

text \<open>
  Claim C6. The metadata that \<^verbatim>\<open>MetadataFromHeaders\<close> builds is the multimap of the pairs the
  specification describes: it has one entry for each name that occurs, and the values of
  a name are the values of that name's headers, in the order of the headers.
\<close>

theorem MetadataFromHeaders_follows_spec:
  "distinct (map fst (MetadataFromHeaders unicodeLower headers))
   \<and> map_of (MetadataFromHeaders unicodeLower headers) k
       = (if k \<in> fst ` set (specPairs unicodeLower headers)
          then Some (valuesOf k (specPairs unicodeLower headers)) else None)"
proof -
  have "mdInv [] []" by (simp add: mdInv_def)
  from foldl_addHeader_inv[OF this, of unicodeLower headers]
  show ?thesis by (simp add: MetadataFromHeaders_def mdInv_def)
qed

lemma hello_decoded: "specDecode ''aGVsbG8='' = ''hello''"
  using base64_Std_roundtrip[of "''hello''", unfolded hello_encoded] by (simp add: specDecode_def)

lemma demo_bin_name: "specHeaderName id ''X-Bin-bin: aGVsbG8='' = ''x-bin-bin''"
  by code_simp

lemma demo_bin_raw:
  "TrimSpace (drop 1 (dropWhile (\<lambda>c. c \<noteq> CHR '':'') ''X-Bin-bin: aGVsbG8='')) = ''aGVsbG8=''"
  by code_simp

lemma demo_bin_value: "specHeaderValue id ''X-Bin-bin: aGVsbG8='' = ''hello''"
  unfolding specHeaderValue_def Let_def demo_bin_name demo_bin_raw hello_decoded by simp

lemma demo_plain_pairs:
  "specPairs id [''X-Foo: 1'', ''x-foo:2'', [], ''Bar'']
     = [(''x-foo'', ''1''), (''x-foo'', ''2''), (''bar'', [])]"
  by code_simp

lemma specPairs_append:
  "specPairs unicodeLower (xs @ ys) = specPairs unicodeLower xs @ specPairs unicodeLower ys"
  by (simp add: specPairs_def)

lemma demo_pairs:
  "specPairs id demoHeaders
     = [(''x-foo'', ''1''), (''x-foo'', ''2''), (''bar'', []), (''x-bin-bin'', ''hello'')]"
proof -
  have split: "demoHeaders = [''X-Foo: 1'', ''x-foo:2'', [], ''Bar''] @ [''X-Bin-bin: aGVsbG8='']"
    by (simp add: demoHeaders_def)
  have last: "specPairs id [''X-Bin-bin: aGVsbG8=''] = [(''x-bin-bin'', ''hello'')]"
    unfolding specPairs_def using demo_bin_name demo_bin_value by simp
  show ?thesis
    unfolding split specPairs_append demo_plain_pairs last by simp
qed

theorem MetadataFromHeaders_follows_spec_witness:
  "map_of (MetadataFromHeaders id demoHeaders) ''x-foo'' = Some [''1'', ''2'']
   \<and> map_of (MetadataFromHeaders id demoHeaders) ''bar'' = Some [[]]
   \<and> map_of (MetadataFromHeaders id demoHeaders) ''x-bin-bin'' = Some [''hello'']
   \<and> map_of (MetadataFromHeaders id demoHeaders) ''X-Foo'' = None"
  using MetadataFromHeaders_follows_spec[of id demoHeaders "''x-foo''"]
    MetadataFromHeaders_follows_spec[of id demoHeaders "''bar''"]
    MetadataFromHeaders_follows_spec[of id demoHeaders "''x-bin-bin''"]
    MetadataFromHeaders_follows_spec[of id demoHeaders "''X-Foo''"]
  by (simp add: demo_pairs valuesOf_def)

subsection \<open>Reflection errors\<close>

lemma reflectionSupport_Unimplemented:
  "reflectionSupport (Some (StatusError Unimplemented m)) = Some ErrReflectionNotSupported"
  by (simp add: reflectionSupport_def)

lemma reflectionSupport_other:
  "\<forall>m. e \<noteq> StatusError Unimplemented m \<Longrightarrow> reflectionSupport (Some e) = Some e"
  by (cases e) (auto simp: reflectionSupport_def)

lemma resolveExtensions_fails:
  "k < length nums \<Longrightarrow>
   \<forall>j<k. \<exists>x. rcResolveExtension client t (nums ! j) = Inr x \<Longrightarrow>
   rcResolveExtension client t (nums ! k) = Inl e \<Longrightarrow>
   resolveExtensions client t nums exts = ([], reflectionSupport (Some e))"
proof (induction nums arbitrary: k exts)
  case Nil
  then show ?case by simp
next
  case (Cons n nums)
  show ?case
  proof (cases k)
    case 0
    with Cons.prems show ?thesis by simp
  next
    case (Suc k')
    from Cons.prems(2) Suc obtain x where x: "rcResolveExtension client t n = Inr x"
      by fastforce
    have before: "\<forall>j<k'. \<exists>x. rcResolveExtension client t (nums ! j) = Inr x"
      using Cons.prems(2) Suc by fastforce
    have bound: "k' < length nums" using Cons.prems(1) Suc by simp
    have fails: "rcResolveExtension client t (nums ! k') = Inl e"
      using Cons.prems(3) Suc by simp
    have "resolveExtensions client t nums (exts @ [x]) = ([], reflectionSupport (Some e))"
      by (rule Cons.IH[OF bound before fails])
    with x show ?thesis by simp
  qed
qed

text \<open>
  Claim C7. Each operation of the reflection-backed source returns, for a failing call of
  the reflection client with error \<open>e\<close>, the sentinel \<^const>\<open>ErrReflectionNotSupported\<close> when
  \<open>e\<close> carries the status code \<^const>\<open>Unimplemented\<close>, and \<open>e\<close> itself otherwise. The failing
  call is \<^verbatim>\<open>ListServices\<close>, \<^verbatim>\<open>FileContainingSymbol\<close>, \<^verbatim>\<open>AllExtensionNumbersForType\<close>, or the
  first \<^verbatim>\<open>ResolveExtension\<close> that fails (the one for the extension number at index \<open>k\<close>).
\<close>

theorem serverSource_reflection_errors:
  "(rcListServices client = (svcs, Some e) \<longrightarrow>
      serverSource_ListServices client =
        (svcs, Some (if \<exists>m. e = StatusError Unimplemented m then ErrReflectionNotSupported else e)))
   \<and> (rcFileContainingSymbol client name = Inl e \<longrightarrow>
      serverSource_FindSymbol client name =
        (None, Some (if \<exists>m. e = StatusError Unimplemented m then ErrReflectionNotSupported else e)))
   \<and> (rcAllExtensionNumbersForType client name = Inl e \<longrightarrow>
      serverSource_AllExtensionsForType client name =
        ([], Some (if \<exists>m. e = StatusError Unimplemented m then ErrReflectionNotSupported else e)))
   \<and> (rcAllExtensionNumbersForType client name = Inr nums \<and> k < length nums
        \<and> (\<forall>j<k. \<exists>x. rcResolveExtension client name (nums ! j) = Inr x)
        \<and> rcResolveExtension client name (nums ! k) = Inl e \<longrightarrow>
      serverSource_AllExtensionsForType client name =
        ([], Some (if \<exists>m. e = StatusError Unimplemented m then ErrReflectionNotSupported else e)))"
proof -
  have tr: "reflectionSupport (Some e) =
      Some (if \<exists>m. e = StatusError Unimplemented m then ErrReflectionNotSupported else e)"
    using reflectionSupport_Unimplemented reflectionSupport_other[of e] by auto
  have "rcListServices client = (svcs, Some e) \<longrightarrow>
      serverSource_ListServices client = (svcs, reflectionSupport (Some e))"
    by (simp add: serverSource_ListServices_def)
  moreover have "rcFileContainingSymbol client name = Inl e \<longrightarrow>
      serverSource_FindSymbol client name = (None, reflectionSupport (Some e))"
    by (simp add: serverSource_FindSymbol_def)
  moreover have "rcAllExtensionNumbersForType client name = Inl e \<longrightarrow>
      serverSource_AllExtensionsForType client name = ([], reflectionSupport (Some e))"
    by (simp add: serverSource_AllExtensionsForType_def)
  moreover have "rcAllExtensionNumbersForType client name = Inr nums \<and> k < length nums
        \<and> (\<forall>j<k. \<exists>x. rcResolveExtension client name (nums ! j) = Inr x)
        \<and> rcResolveExtension client name (nums ! k) = Inl e \<longrightarrow>
      serverSource_AllExtensionsForType client name = ([], reflectionSupport (Some e))"
    using resolveExtensions_fails[of k nums client name e "[]"]
    by (simp add: serverSource_AllExtensionsForType_def)
  ultimately show ?thesis unfolding tr by blast
qed

theorem serverSource_reflection_errors_witness:
  "serverSource_ListServices demoClient = ([], Some ErrReflectionNotSupported)
   \<and> serverSource_FindSymbol demoClient ''a.S'' = (None, Some ErrReflectionNotSupported)
   \<and> serverSource_AllExtensionsForType demoClient ''b.M'' = ([], Some (Opaque ''connection reset''))
   \<and> serverSource_AllExtensionsForType demoClient ''a.M'' = ([], Some ErrReflectionNotSupported)"
proof -
  note c1 = serverSource_reflection_errors[of demoClient "[]"
      "StatusError Unimplemented ''no reflection''" "''a.S''" "[1, 2]" 1]
  note c2 = serverSource_reflection_errors[of demoClient "[]"
      "Opaque ''connection reset''" "''b.M''" "[]" 0]
  note c3 = serverSource_reflection_errors[of demoClient "[]"
      "StatusError Unimplemented ''no reflection''" "''a.M''" "[1, 2]" 1]
  have "serverSource_ListServices demoClient = ([], Some ErrReflectionNotSupported)"
    using c1 by (simp add: demoClient_def)
  moreover have "serverSource_FindSymbol demoClient ''a.S'' = (None, Some ErrReflectionNotSupported)"
    using c1 by (simp add: demoClient_def)
  moreover have "serverSource_AllExtensionsForType demoClient ''b.M''
      = ([], Some (Opaque ''connection reset''))"
    using c2 by (simp add: demoClient_def)
  moreover have "serverSource_AllExtensionsForType demoClient ''a.M''
      = ([], Some ErrReflectionNotSupported)"
    using c3 by (simp add: demoClient_def)
  ultimately show ?thesis by blast
qed

subsection \<open>Listing methods\<close>

lemma fileSource_FindSymbol_absent:
  "\<forall>fd \<in> set files. fdFindSymbol fd n = None \<Longrightarrow>
   fileSource_FindSymbol files n = (None, Some (notFound ''Symbol'' n))"
  by (induction files) auto

lemma isNotFoundError_notFound: "isNotFoundError (notFound kind name)"
  by (simp add: isNotFoundError_def notFound_def)

text \<open>
  Claim C8. \<^verbatim>\<open>ListMethods\<close> looks the name up with \<^verbatim>\<open>FindSymbol\<close>. An error of the lookup
  is returned as it is; for the file-backed source a name that no file knows gives a
  not-found error. A symbol that is not a service gives a not-found error. For a service
  the result is the list of its method names in ascending byte-wise order: sorted, and with
  the same elements as the methods of the service.
\<close>

theorem ListMethods_sorted_or_NotFound:
  "(srcFindSymbol source n = (dsc, Some e) \<longrightarrow> ListMethods source n = ([], Some e))
   \<and> (srcFindSymbol source = fileSource_FindSymbol files
        \<and> (\<forall>fd \<in> set files. fdFindSymbol fd n = None) \<longrightarrow>
      (\<exists>e'. ListMethods source n = ([], Some e') \<and> isNotFoundError e'))
   \<and> (srcFindSymbol source n = (dsc, None) \<and> (\<forall>sd. dsc \<noteq> Some (ServiceDescriptor sd)) \<longrightarrow>
      (\<exists>e'. ListMethods source n = ([], Some e') \<and> isNotFoundError e'))
   \<and> (srcFindSymbol source n = (Some (ServiceDescriptor sd), None) \<longrightarrow>
      (\<exists>ms. ListMethods source n = (ms, None) \<and> sorted ms
            \<and> mset ms = mset (map mtdName (svcMethods sd))))"
proof -
  have a: "srcFindSymbol source n = (dsc, Some e) \<longrightarrow> ListMethods source n = ([], Some e)"
    by (simp add: ListMethods_def)
  have b: "srcFindSymbol source = fileSource_FindSymbol files
        \<and> (\<forall>fd \<in> set files. fdFindSymbol fd n = None) \<longrightarrow>
      (\<exists>e'. ListMethods source n = ([], Some e') \<and> isNotFoundError e')"
    using fileSource_FindSymbol_absent[of files n] isNotFoundError_notFound
    by (auto simp: ListMethods_def)
  have c: "srcFindSymbol source n = (dsc, None) \<and> (\<forall>sd. dsc \<noteq> Some (ServiceDescriptor sd)) \<longrightarrow>
      (\<exists>e'. ListMethods source n = ([], Some e') \<and> isNotFoundError e')"
    using isNotFoundError_notFound
    by (auto simp: ListMethods_def split: option.splits descriptor.splits)
  have d: "srcFindSymbol source n = (Some (ServiceDescriptor sd), None) \<longrightarrow>
      (\<exists>ms. ListMethods source n = (ms, None) \<and> sorted ms
            \<and> mset ms = mset (map mtdName (svcMethods sd)))"
    by (simp add: ListMethods_def)
  from a b c d show ?thesis by blast
qed

theorem ListMethods_witness:
  "ListMethods demoSource ''pkg.Svc'' = ([''Chat'', ''Echo''], None)
   \<and> ListMethods demoSource ''pkg.Req''
       = ([], Some (NotFoundError ''Service not found: pkg.Req''))
   \<and> ListMethods demoSource ''pkg.Nope''
       = ([], Some (NotFoundError ''Symbol not found: pkg.Nope''))"
proof -
  have f1: "srcFindSymbol demoSource ''pkg.Svc'' = (Some (ServiceDescriptor demoService), None)"
    by (simp add: demoSource_def demoFile_def)
  have f2: "srcFindSymbol demoSource ''pkg.Req''
      = (Some (MessageDescriptor (MessageDesc ''pkg.Req'')), None)"
    by (simp add: demoSource_def demoFile_def)
  have f3: "srcFindSymbol demoSource ''pkg.Nope''
      = (None, Some (NotFoundError ''Symbol not found: pkg.Nope''))"
    by (simp add: demoSource_def demoFile_def notFound_def)
  have "ListMethods demoSource ''pkg.Svc'' = ([''Chat'', ''Echo''], None)"
    using ListMethods_sorted_or_NotFound[of demoSource "''pkg.Svc''"
        "Some (ServiceDescriptor demoService)" EOF "[demoFile]" demoService] f1
    by (simp add: ListMethods_def demoService_def demoMethod_def)
  moreover have "ListMethods demoSource ''pkg.Req''
      = ([], Some (NotFoundError ''Service not found: pkg.Req''))"
    using ListMethods_sorted_or_NotFound[of demoSource "''pkg.Req''"
        "Some (MessageDescriptor (MessageDesc ''pkg.Req''))" EOF "[demoFile]" demoService] f2
    by (simp add: ListMethods_def notFound_def)
  moreover have "ListMethods demoSource ''pkg.Nope''
      = ([], Some (NotFoundError ''Symbol not found: pkg.Nope''))"
    using ListMethods_sorted_or_NotFound[of demoSource "''pkg.Nope''" None
        "NotFoundError ''Symbol not found: pkg.Nope''" "[demoFile]" demoService] f3
    by simp
  ultimately show ?thesis by blast
qed

subsection \<open>Descriptor text\<close>

text \<open>
  Claim C10. For a non-empty printed text the function returns it without its last
  character when that is a newline, and unchanged otherwise: at most one newline goes.
  For the empty text the index \<^verbatim>\<open>len(txt)-1\<close> is out of range and the function panics. An
  error of the printer is passed on.
\<close>

theorem GetDescriptorText_strips_one_newline:
  "(txt \<noteq> [] \<longrightarrow>
      (\<exists>r. GetDescriptorText (Inr txt) = Returns (r, None)
           \<and> (if last txt = CHR 0x0A then txt = r @ [CHR 0x0A] else r = txt)))
   \<and> GetDescriptorText (Inr []) = Panics
   \<and> GetDescriptorText (Inl e) = Returns ([], Some e)"
proof -
  have "txt \<noteq> [] \<Longrightarrow> txt ! (length txt - 1) = last txt"
    by (simp add: last_conv_nth)
  moreover have "txt \<noteq> [] \<Longrightarrow> take (length txt - 1) txt @ [last txt] = txt"
    by (metis append_butlast_last_id butlast_conv_take)
  ultimately show ?thesis
    by (auto simp: GetDescriptorText_def)
qed

theorem GetDescriptorText_witness:
  "''message M {}\<newline>\<newline>'' \<noteq> []
   \<and> GetDescriptorText (Inr ''message M {}\<newline>\<newline>'') = Returns (''message M {}\<newline>'', None)"
  using GetDescriptorText_strips_one_newline[of "''message M {}\<newline>\<newline>''"]
  by auto

end
